theory Spec2Isabelle
  imports Main "HOL-Library.AList"
begin

section \<open>JavaScript values, exceptions and the logger\<close>

text \<open>
  The values \<^verbatim>\<open>JSON.parse\<close> can return. Numbers are the integers (the cursor, the update
  ids, the user ids and the file sizes are integers, exact in a JavaScript number below
  \<open>2^53\<close>). An object is the list of its own properties in insertion order. An array
  carries, next to its elements, the non-index properties an assignment may have added.
\<close>

datatype js =
    JNull
  | JBool bool
  | JNum int
  | JStr string
  | JArr "js list" "(string \<times> js) list"
  | JObj "(string \<times> js) list"

text \<open>
  The value thrown by a \<^verbatim>\<open>throw\<close> or carried by a rejected promise. \<open>SystemError\<close> is
  what a failing file-system call throws, \<open>NetworkError\<close> what a failing \<^verbatim>\<open>fetch\<close> throws.
  An \<^verbatim>\<open>Error\<close> carries its message, without the numbers interpolated into it.
\<close>

datatype js_error =
    SyntaxError
  | TypeError
  | SystemError
  | NetworkError
  | Error string

text \<open>
  \<^verbatim>\<open>JSON.parse(JSON.stringify(v, null, 2))\<close>: serialising drops the non-index
  properties of arrays and keeps everything else.
\<close>

primrec JSON_roundtrip :: "js \<Rightarrow> js" where
  "JSON_roundtrip JNull = JNull"
| "JSON_roundtrip (JBool b) = JBool b"
| "JSON_roundtrip (JNum n) = JNum n"
| "JSON_roundtrip (JStr s) = JStr s"
| "JSON_roundtrip (JArr xs ps) = JArr (map JSON_roundtrip xs) []"
| "JSON_roundtrip (JObj kv) = JObj (map (map_prod id JSON_roundtrip) kv)"

text \<open>
  Reading \<^verbatim>\<open>v.offset\<close>: a \<^verbatim>\<open>TypeError\<close> on \<^verbatim>\<open>null\<close>, the property or
  \<^verbatim>\<open>undefined\<close> (\<open>None\<close>) otherwise.
\<close>

fun read_offset :: "js \<Rightarrow> js_error + js option" where
  "read_offset JNull = Inl TypeError"
| "read_offset (JObj kv) = Inr (map_of kv ''offset'')"
| "read_offset (JArr xs ps) = Inr (map_of ps ''offset'')"
| "read_offset v = Inr None"

text \<open>
  The assignment \<^verbatim>\<open>v.offset = x\<close> in strict mode (class bodies and ES modules are
  strict): it creates or overwrites the property of an object or array, and throws a
  \<^verbatim>\<open>TypeError\<close> on \<^verbatim>\<open>null\<close> and on a primitive value.
\<close>

fun write_offset :: "js \<Rightarrow> js \<Rightarrow> js_error + js" where
  "write_offset (JObj kv) x = Inr (JObj (AList.update ''offset'' x kv))"
| "write_offset (JArr xs ps) x = Inr (JArr xs (AList.update ''offset'' x ps))"
| "write_offset v x = Inl TypeError"

text \<open>
  Whether converting a value to a string, as a template literal does, throws a
  \<^verbatim>\<open>TypeError\<close>. A parsed value holds no function, so an own property \<^verbatim>\<open>toString\<close> is
  not callable and hides the inherited method; \<^verbatim>\<open>valueOf\<close>, own or inherited, then yields
  no primitive, and the conversion throws. An object without it prints as
  \<^verbatim>\<open>[object Object]\<close>. An array is printed by \<^verbatim>\<open>join\<close>, which converts each element in
  turn (\<^verbatim>\<open>null\<close> prints as the empty string), unless an own property \<^verbatim>\<open>join\<close> hides it.
\<close>

primrec ToString_throws :: "js \<Rightarrow> bool" where
  "ToString_throws JNull = False"
| "ToString_throws (JBool b) = False"
| "ToString_throws (JNum n) = False"
| "ToString_throws (JStr s) = False"
| "ToString_throws (JArr xs ps) =
     (if ''toString'' \<in> set (map fst ps) then True
      else if ''join'' \<in> set (map fst ps) then False
      else True \<in> set (map ToString_throws xs))"
| "ToString_throws (JObj kv) = (''toString'' \<in> set (map fst kv))"

fun is_object :: "js \<Rightarrow> bool" where
  "is_object (JObj kv) = True"
| "is_object v = False"

text \<open>
  \<^verbatim>\<open>Logger\<close> (src/utils/Logger.ts) writes one console line per call. An entry keeps the
  level, the logger's context and the fixed text of the message; the timestamp and the
  values interpolated into the message are left out. \<open>ConsoleDir\<close> is the
  \<^verbatim>\<open>console.dir\<close> of \<^verbatim>\<open>MessageHandler.handle\<close>.
\<close>

datatype level = INFO | WARN | ERROR | DEBUG

datatype log_entry = Log level string string | ConsoleDir

section \<open>The interfaces of types/telegram.ts (src/unnamed/part_006)\<close>

text \<open>Each record keeps the fields the modelled code reads, under the interface's name.\<close>

record User =
  User_id :: int
  User_username :: "string option"

record Chat =
  Chat_id :: int

record PhotoSize =
  PhotoSize_file_id :: string
  PhotoSize_width :: int
  PhotoSize_height :: int
  PhotoSize_file_size :: "int option"

record Document =
  Document_file_name :: string
  Document_file_id :: string
  Document_file_size :: int

record Message =
  Message_from :: "User option"
  Message_chat :: Chat
  Message_text :: "string option"
  Message_photo :: "PhotoSize list option"
  Message_document :: "Document option"

record Update =
  update_id :: int
  message :: "Message option"
  edited_message :: "Message option"
  channel_post :: "Message option"
  edited_channel_post :: "Message option"

record File =
  File_file_id :: string
  File_file_size :: "int option"
  File_file_path :: "string option"

record DownloadFileResult =
  Result_file_path :: string
  Result_file_size :: nat

text \<open>\<^verbatim>\<open>GetUpdatesParams\<close> as \<^verbatim>\<open>poll\<close> fills it; the offset is what \<^verbatim>\<open>getOffset\<close> returned.\<close>

record GetUpdatesParams =
  offset :: "js option"
  timeout :: nat
  limit :: nat

text \<open>The response envelope \<^verbatim>\<open>TelegramResponse<T>\<close>.\<close>

record 'a TelegramResponse =
  ok :: bool
  result :: 'a
  description :: "string option"

section \<open>The world\<close>

text \<open>
  The backing file of the cursor. Its text is represented by what \<^verbatim>\<open>JSON.parse\<close> makes
  of it: \<open>Garbled\<close> is a text that is not JSON, \<open>Json v\<close> a text that parses to \<open>v\<close>.
  The file can only exist inside its directory.
\<close>

datatype content = Garbled | Json js

datatype disk = NoDir | NoFile | StateFile content

datatype io_op = Mkdir | WriteFile content | ReadFile

text \<open>
  The HTTP requests the client sends: the three Bot API methods the modelled code calls,
  and the GET of a file's bytes by its path.
\<close>

datatype request =
    GetUpdatesCall GetUpdatesParams
  | SendMessageCall int string
  | GetFileCall string
  | FileGet string

text \<open>
  Everything the program reads or changes:
  \<^item> \<open>state\<close>: the field \<^verbatim>\<open>StateManager.state\<close>, whatever value it holds;
  \<^item> \<open>isRunning\<close>: the field \<^verbatim>\<open>PollingService.isRunning\<close>;
  \<^item> \<open>disk\<close>: the backing file and its directory;
  \<^item> \<open>faults\<close>: the fault plan of the backing file's file system, \<open>faults k\<close> says that
    the \<open>k\<close>-th call (counted from 0) fails; \<open>io_log\<close> lists the calls made so far;
  \<^item> \<open>logs\<close>: the lines logged;
  \<^item> \<open>calls\<close>: the updates handed to the processor, in order;
  \<^item> \<open>requests\<close>: the HTTP requests sent, in order;
  \<^item> \<open>sleeps\<close>: the \<^verbatim>\<open>setTimeout\<close> delays awaited, in milliseconds;
  \<^item> \<open>saved\<close>: the downloaded files written to disk, with their sizes.
\<close>

record world =
  state :: js
  isRunning :: bool
  disk :: disk
  faults :: "nat \<Rightarrow> bool"
  io_log :: "io_op list"
  logs :: "log_entry list"
  calls :: "Update list"
  requests :: "request list"
  sleeps :: "nat list"
  saved :: "(string \<times> nat) list"

text \<open>An asynchronous method either resolves with a value or rejects, and leaves a world.\<close>

type_synonym 'a async = "(js_error + 'a) \<times> world"

definition logger :: "level \<Rightarrow> string \<Rightarrow> string \<Rightarrow> world \<Rightarrow> world" where
  "logger l ctx msg w = w\<lparr>logs := logs w @ [Log l ctx msg]\<rparr>"

subsection \<open>The file-system calls on the backing file\<close>

definition io_fault :: "world \<Rightarrow> bool" where
  "io_fault w = faults w (length (io_log w))"

definition existsSync_statePath :: "world \<Rightarrow> bool" where
  "existsSync_statePath w = (case disk w of StateFile c \<Rightarrow> True | _ \<Rightarrow> False)"

definition existsSync_dir :: "world \<Rightarrow> bool" where
  "existsSync_dir w = (case disk w of NoDir \<Rightarrow> False | _ \<Rightarrow> True)"

text \<open>\<^verbatim>\<open>mkdir(dir, { recursive: true })\<close>: no error when the directory is there already.\<close>

definition mkdir :: "world \<Rightarrow> unit async" where
  "mkdir w =
     (let w1 = w\<lparr>io_log := io_log w @ [Mkdir]\<rparr> in
      if io_fault w then (Inl SystemError, w1)
      else (Inr (), w1\<lparr>disk := (case disk w of NoDir \<Rightarrow> NoFile | d \<Rightarrow> d)\<rparr>))"

text \<open>\<^verbatim>\<open>writeFile\<close> replaces the whole file; it fails without the directory.\<close>

definition writeFile :: "content \<Rightarrow> world \<Rightarrow> unit async" where
  "writeFile c w =
     (let w1 = w\<lparr>io_log := io_log w @ [WriteFile c]\<rparr> in
      if io_fault w \<or> disk w = NoDir then (Inl SystemError, w1)
      else (Inr (), w1\<lparr>disk := StateFile c\<rparr>))"

definition readFile :: "world \<Rightarrow> content async" where
  "readFile w =
     (let w1 = w\<lparr>io_log := io_log w @ [ReadFile]\<rparr> in
      if io_fault w then (Inl SystemError, w1)
      else (case disk w of StateFile c \<Rightarrow> (Inr c, w1) | _ \<Rightarrow> (Inl SystemError, w1)))"

definition JSON_parse :: "content \<Rightarrow> js_error + js" where
  "JSON_parse c = (case c of Garbled \<Rightarrow> Inl SyntaxError | Json v \<Rightarrow> Inr v)"

definition JSON_stringify :: "js \<Rightarrow> content" where
  "JSON_stringify v = Json (JSON_roundtrip v)"

section \<open>StateManager (src/services/StateManager.ts)\<close>

text \<open>The constructor's \<^verbatim>\<open>this.state = { offset: 0 }\<close>.\<close>

definition initial_state :: js where
  "initial_state = JObj [(''offset'', JNum 0)]"

definition ensureDirectoryExists :: "world \<Rightarrow> unit async" where
  "ensureDirectoryExists w = (if \<not> existsSync_dir w then mkdir w else (Inr (), w))"

text \<open>\<^verbatim>\<open>save\<close>: both calls are inside its \<^verbatim>\<open>try\<close>; the \<^verbatim>\<open>catch\<close> logs and returns.\<close>

definition save :: "world \<Rightarrow> unit async" where
  "save w =
     (case ensureDirectoryExists w of
        (Inl e, w1) \<Rightarrow> (Inr (), logger ERROR ''StateManager'' ''Failed to save state'' w1)
      | (Inr u, w1) \<Rightarrow>
          (case writeFile (JSON_stringify (state w1)) w1 of
             (Inl e, w2) \<Rightarrow> (Inr (), logger ERROR ''StateManager'' ''Failed to save state'' w2)
           | (Inr u', w2) \<Rightarrow> (Inr (), w2)))"

text \<open>The \<^verbatim>\<open>catch\<close> block of \<^verbatim>\<open>load\<close>.\<close>

definition load_failed :: "world \<Rightarrow> unit async" where
  "load_failed w =
     (Inr (), (logger ERROR ''StateManager'' ''Failed to load state'' w)\<lparr>state := initial_state\<rparr>)"

text \<open>
  The template literal of the log line of \<^verbatim>\<open>load\<close> reads \<^verbatim>\<open>this.state.offset\<close> and converts
  it to a string: it throws when the state is \<^verbatim>\<open>null\<close> and when the offset cannot be
  converted; \<^verbatim>\<open>undefined\<close> prints as such.
\<close>

definition offset_in_template :: "js \<Rightarrow> js_error + unit" where
  "offset_in_template v =
     (case read_offset v of
        Inl e \<Rightarrow> Inl e
      | Inr None \<Rightarrow> Inr ()
      | Inr (Some x) \<Rightarrow> if ToString_throws x then Inl TypeError else Inr ())"

text \<open>
  \<^verbatim>\<open>load\<close>. Without a backing file it creates one from the state in memory. With one, it
  reads and parses it, assigns the parsed value to the state as it is, and logs
  \<^verbatim>\<open>this.state.offset\<close>; whatever throws on the way lands in the \<^verbatim>\<open>catch\<close> block.
\<close>

definition load :: "world \<Rightarrow> unit async" where
  "load w =
     (if \<not> existsSync_statePath w then
        (case ensureDirectoryExists w of
           (Inl e, w1) \<Rightarrow> load_failed w1
         | (Inr u, w1) \<Rightarrow>
             (case save w1 of
                (Inl e, w2) \<Rightarrow> load_failed w2
              | (Inr u', w2) \<Rightarrow>
                  (Inr (), logger INFO ''StateManager'' ''Created new state file'' w2)))
      else
        (case readFile w of
           (Inl e, w1) \<Rightarrow> load_failed w1
         | (Inr data, w1) \<Rightarrow>
             (case JSON_parse data of
                Inl e \<Rightarrow> load_failed w1
              | Inr v \<Rightarrow>
                  (let w2 = w1\<lparr>state := v\<rparr> in
                   case offset_in_template v of
                     Inl e \<Rightarrow> load_failed w2
                   | Inr u \<Rightarrow>
                       (Inr (), logger INFO ''StateManager'' ''Loaded state with offset: '' w2)))))"

definition getOffset :: "world \<Rightarrow> js_error + js option" where
  "getOffset w = read_offset (state w)"

text \<open>\<^verbatim>\<open>setOffset\<close>: the assignment, then \<^verbatim>\<open>save\<close>.\<close>

definition setOffset :: "int \<Rightarrow> world \<Rightarrow> unit async" where
  "setOffset n w =
     (case write_offset (state w) (JNum n) of
        Inl e \<Rightarrow> (Inl e, w)
      | Inr s \<Rightarrow> save (w\<lparr>state := s\<rparr>))"

text \<open>The cursor the backing file holds, when it holds an object with an integer offset.\<close>

definition persisted :: "world \<Rightarrow> int option" where
  "persisted w =
     (case disk w of
        StateFile (Json (JObj kv)) \<Rightarrow>
          (case map_of kv ''offset'' of Some (JNum n) \<Rightarrow> Some n | _ \<Rightarrow> None)
      | _ \<Rightarrow> None)"

section \<open>TelegramClient (core/TelegramClient.ts with downloads, src/unnamed/part_005)\<close>

text \<open>
  What one Bot API call delivers: \<^verbatim>\<open>fetch\<close> rejects (a transport failure),
  \<^verbatim>\<open>response.json()\<close> rejects (the body is not JSON), or the body is an envelope.
\<close>

datatype 'a http =
    FetchRejects
  | JsonRejects
  | Body "'a TelegramResponse"

fun method_of :: "request \<Rightarrow> string" where
  "method_of (GetUpdatesCall p) = ''getUpdates''"
| "method_of (SendMessageCall c t) = ''sendMessage''"
| "method_of (GetFileCall f) = ''getFile''"
| "method_of (FileGet p) = ''file''"

text \<open>
  \<^verbatim>\<open>makeRequest\<close> sends the request. An envelope with \<^verbatim>\<open>ok: false\<close> is thrown as an
  \<^verbatim>\<open>Error\<close> carrying \<^verbatim>\<open>data.description || 'Unknown error'\<close>; the \<^verbatim>\<open>catch\<close> block logs
  whatever was thrown and throws it again.
\<close>

definition makeRequest :: "request \<Rightarrow> 'a http \<Rightarrow> world \<Rightarrow> 'a async" where
  "makeRequest call r w =
     (let w1 = w\<lparr>requests := requests w @ [call]\<rparr>;
          failed = logger ERROR ''TelegramClient'' (''Failed to call '' @ method_of call) w1
      in case r of
           FetchRejects \<Rightarrow> (Inl NetworkError, failed)
         | JsonRejects \<Rightarrow> (Inl SyntaxError, failed)
         | Body data \<Rightarrow>
             if \<not> ok data then
               (Inl (Error (''Telegram API error: '' @
                      (case description data of
                         None \<Rightarrow> ''Unknown error''
                       | Some d \<Rightarrow> if d = [] then ''Unknown error'' else d))),
                failed)
             else (Inr (result data), w1))"

definition getUpdates :: "GetUpdatesParams \<Rightarrow> Update list http \<Rightarrow> world \<Rightarrow> Update list async" where
  "getUpdates params r w = makeRequest (GetUpdatesCall params) r w"

definition sendMessage :: "int \<Rightarrow> string \<Rightarrow> unit http \<Rightarrow> world \<Rightarrow> unit async" where
  "sendMessage chat_id txt r w = makeRequest (SendMessageCall chat_id txt) r w"

definition getFile :: "string \<Rightarrow> File http \<Rightarrow> world \<Rightarrow> File async" where
  "getFile file_id r w = makeRequest (GetFileCall file_id) r w"

text \<open>
  What the GET of a file's bytes and the writing of them deliver: \<^verbatim>\<open>fetch\<close> rejects,
  the response is not \<^verbatim>\<open>ok\<close> (with its status text), \<^verbatim>\<open>mkdir\<close> or \<^verbatim>\<open>writeFile\<close>
  rejects, or the bytes (their number) are written.
\<close>

datatype download =
    GetRejects
  | HttpStatus string
  | MkdirRejects
  | WriteRejects
  | Bytes nat

text \<open>\<^verbatim>\<open>downloadFile\<close>: its \<^verbatim>\<open>catch\<close> block logs whatever was thrown and throws it again.\<close>

definition downloadFile :: "string \<Rightarrow> string \<Rightarrow> download \<Rightarrow> world \<Rightarrow> DownloadFileResult async" where
  "downloadFile filePath savePath d w =
     (let w1 = w\<lparr>requests := requests w @ [FileGet filePath]\<rparr>;
          failed = logger ERROR ''TelegramClient'' ''Failed to download file from '' w1
      in case d of
           GetRejects \<Rightarrow> (Inl NetworkError, failed)
         | HttpStatus s \<Rightarrow> (Inl (Error (''Failed to download file: '' @ s)), failed)
         | MkdirRejects \<Rightarrow> (Inl SystemError, failed)
         | WriteRejects \<Rightarrow> (Inl SystemError, failed)
         | Bytes n \<Rightarrow>
             (Inr \<lparr>Result_file_path = savePath, Result_file_size = n\<rparr>,
              w1\<lparr>saved := saved w1 @ [(savePath, n)]\<rparr>))"

definition MAX_FILE_SIZE :: int where
  "MAX_FILE_SIZE = 20 * 1024 * 1024"

text \<open>
  What the remote side and the machine deliver while one message is handled: the replies
  to \<^verbatim>\<open>getFile\<close> and \<^verbatim>\<open>sendMessage\<close>, the outcome of the download, and the path
  \<^verbatim>\<open>downloadFileById\<close> generates from \<^verbatim>\<open>tmpdir()\<close>, \<^verbatim>\<open>Date.now()\<close> and the file's name.
\<close>

record exchange =
  getFile_reply :: "File http"
  download_reply :: download
  generated_path :: string
  sendMessage_reply :: "unit http"

text \<open>
  \<^verbatim>\<open>downloadFileById\<close>. \<^verbatim>\<open>!file.file_path\<close> holds for a missing and for an empty path;
  \<^verbatim>\<open>file.file_size && file.file_size > MAX_FILE_SIZE\<close> needs a size that is there and
  not 0. \<^verbatim>\<open>savePath || ...\<close> takes the generated path for a missing or empty one.
\<close>

definition downloadFileById :: "string \<Rightarrow> string option \<Rightarrow> exchange \<Rightarrow> world \<Rightarrow> DownloadFileResult async" where
  "downloadFileById fileId savePath x w =
     (case getFile fileId (getFile_reply x) w of
        (Inl e, w1) \<Rightarrow> (Inl e, w1)
      | (Inr file, w1) \<Rightarrow>
          (case File_file_path file of
             None \<Rightarrow> (Inl (Error ''File path not available in response''), w1)
           | Some path \<Rightarrow>
               if path = [] then (Inl (Error ''File path not available in response''), w1)
               else if (case File_file_size file of
                          None \<Rightarrow> False
                        | Some n \<Rightarrow> n \<noteq> 0 \<and> n > MAX_FILE_SIZE)
               then (Inl (Error ''File size exceeds maximum limit of bytes''), w1)
               else
                 (let finalSavePath =
                        (case savePath of
                           None \<Rightarrow> generated_path x
                         | Some p \<Rightarrow> if p = [] then generated_path x else p)
                  in downloadFile path finalSavePath (download_reply x) w1)))"

section \<open>PollingService (services/PollingService.ts, in src/services/StateManager.ts)\<close>

definition pollTimeout :: nat where
  "pollTimeout = 30"

definition pollLimit :: nat where
  "pollLimit = 100"

definition stop :: "world \<Rightarrow> world" where
  "stop w = logger INFO ''PollingService'' ''Polling stopped'' (w\<lparr>isRunning := False\<rparr>)"

text \<open>
  The service runs on one thread: other code, such as a call of \<^verbatim>\<open>stop()\<close>, runs only
  while the service is suspended in an \<^verbatim>\<open>await\<close>. The flag says whether \<^verbatim>\<open>stop()\<close> was
  called during that suspension.
\<close>

definition while_awaiting :: "bool \<Rightarrow> world \<Rightarrow> world" where
  "while_awaiting stop_called w = (if stop_called then stop w else w)"

text \<open>
  The caller's processor \<^verbatim>\<open>onUpdate\<close>. Its outcome may depend on everything it was handed
  before, so it is a function of the updates handed to it so far and of the current one:
  it resolves or rejects, and \<^verbatim>\<open>stop()\<close> may be called while it is awaited.
\<close>

record verdict =
  resolves :: bool
  stop_meanwhile :: bool

type_synonym processor = "Update list \<Rightarrow> Update \<Rightarrow> verdict"

text \<open>
  What the environment does in one iteration of the loop: the reply to the
  \<^verbatim>\<open>getUpdates\<close> request, and whether \<^verbatim>\<open>stop()\<close> is called while the request is in
  flight or during the back-off sleep.
\<close>

record event =
  reply :: "Update list http"
  stop_in_flight :: bool
  stop_in_backoff :: bool

text \<open>The updates an event delivers to the loop: those of an envelope with \<^verbatim>\<open>ok: true\<close>.\<close>

definition delivered :: "event \<Rightarrow> Update list" where
  "delivered ev = (case reply ev of Body r \<Rightarrow> if ok r then result r else [] | _ \<Rightarrow> [])"

text \<open>
  The body of the \<^verbatim>\<open>for\<close> loop of \<^verbatim>\<open>poll\<close>: \<^verbatim>\<open>setOffset\<close> follows \<^verbatim>\<open>onUpdate\<close> inside the
  \<^verbatim>\<open>try\<close>, so it runs only when the processor resolved; the \<^verbatim>\<open>catch\<close> logs.
\<close>

definition for_body :: "processor \<Rightarrow> Update \<Rightarrow> world \<Rightarrow> world" where
  "for_body onUpdate u w =
     (let v = onUpdate (calls w) u;
          w1 = while_awaiting (stop_meanwhile v) (w\<lparr>calls := calls w @ [u]\<rparr>)
      in if resolves v then
           (case setOffset (update_id u + 1) w1 of
              (Inl e, w2) \<Rightarrow> logger ERROR ''PollingService'' ''Failed to process update '' w2
            | (Inr x, w2) \<Rightarrow> w2)
         else logger ERROR ''PollingService'' ''Failed to process update '' w1)"

fun for_updates :: "processor \<Rightarrow> Update list \<Rightarrow> world \<Rightarrow> world" where
  "for_updates onUpdate [] w = w"
| "for_updates onUpdate (u # us) w = for_updates onUpdate us (for_body onUpdate u w)"

text \<open>
  \<^verbatim>\<open>poll\<close>: nothing catches a failure of \<^verbatim>\<open>getOffset\<close> or \<^verbatim>\<open>getUpdates\<close> here. The request
  is built before the service suspends, so a \<^verbatim>\<open>stop()\<close> in flight cannot change it.
\<close>

definition poll :: "processor \<Rightarrow> event \<Rightarrow> world \<Rightarrow> unit async" where
  "poll onUpdate ev w =
     (case getOffset w of
        Inl e \<Rightarrow> (Inl e, w)
      | Inr off \<Rightarrow>
          (case getUpdates \<lparr>offset = off, timeout = pollTimeout, limit = pollLimit\<rparr> (reply ev)
                  (while_awaiting (stop_in_flight ev) w) of
             (Inl e, w1) \<Rightarrow> (Inl e, w1)
           | (Inr updates, w1) \<Rightarrow>
               if length updates = 0 then (Inr (), w1)
               else (Inr (), for_updates onUpdate updates
                               (logger INFO ''PollingService'' ''Received update(s)'' w1))))"

text \<open>The body of the \<^verbatim>\<open>while\<close> loop of \<^verbatim>\<open>start\<close>: \<^verbatim>\<open>poll\<close>, and on a failure the log and the sleep.\<close>

definition iteration :: "processor \<Rightarrow> event \<Rightarrow> world \<Rightarrow> world" where
  "iteration onUpdate ev w =
     (case poll onUpdate ev w of
        (Inl e, w1) \<Rightarrow>
          while_awaiting (stop_in_backoff ev)
            ((logger ERROR ''PollingService'' ''Error during polling'' w1)
               \<lparr>sleeps := sleeps w1 @ [5000]\<rparr>)
      | (Inr u, w1) \<Rightarrow> w1)"

text \<open>
  The \<^verbatim>\<open>while (this.isRunning)\<close> loop, run against the events the environment supplies,
  one per iteration. It returns \<open>Stopped\<close>, with the events it never used, when it finds
  the flag cleared; against a finite list of events a loop that is still running when
  they are used up is \<open>Starved\<close>.
\<close>

datatype run = Stopped world "event list" | Starved world

fun while_isRunning :: "processor \<Rightarrow> event list \<Rightarrow> world \<Rightarrow> run" where
  "while_isRunning onUpdate [] w = (if isRunning w then Starved w else Stopped w [])"
| "while_isRunning onUpdate (ev # evs) w =
     (if isRunning w then while_isRunning onUpdate evs (iteration onUpdate ev w)
      else Stopped w (ev # evs))"

definition start :: "processor \<Rightarrow> event list \<Rightarrow> world \<Rightarrow> run" where
  "start onUpdate evs w =
     while_isRunning onUpdate evs
       (logger INFO ''PollingService'' ''Polling started'' (w\<lparr>isRunning := True\<rparr>))"

fun world_of :: "run \<Rightarrow> world" where
  "world_of (Stopped w evs) = w"
| "world_of (Starved w) = w"

text \<open>
  The body of the loop run once for each event, whatever the flag says: the world after
  each fetch-and-process cycle of a run that nobody stops.
\<close>

fun cycles :: "processor \<Rightarrow> event list \<Rightarrow> world \<Rightarrow> world" where
  "cycles onUpdate [] w = w"
| "cycles onUpdate (ev # evs) w = cycles onUpdate evs (iteration onUpdate ev w)"

section \<open>MessageHandler (src/handlers/MessageHandler.ts, the class with downloads)\<close>

text \<open>
  \<^verbatim>\<open>parseInt(s, 10)\<close>: leading white space, an optional sign, then the longest run of
  decimal digits; \<open>None\<close> is \<^verbatim>\<open>NaN\<close>, the result when there is no digit.
\<close>

definition is_space :: "char \<Rightarrow> bool" where
  "is_space c = (c \<in> set [CHR '' '', CHR 0x09, CHR 0x0A, CHR 0x0B, CHR 0x0C, CHR 0x0D])"

definition is_digit :: "char \<Rightarrow> bool" where
  "is_digit c = (c \<in> set ''0123456789'')"

definition digits_value :: "string \<Rightarrow> int" where
  "digits_value ds = foldl (\<lambda>a c. 10 * a + (of_char c - 48)) 0 ds"

definition parseInt :: "string \<Rightarrow> int option" where
  "parseInt s =
     (let s1 = dropWhile is_space s;
          negative = (case s1 of [] \<Rightarrow> False | c # r \<Rightarrow> c = CHR ''-'');
          s2 = (case s1 of [] \<Rightarrow> [] | c # r \<Rightarrow> if c = CHR ''-'' \<or> c = CHR ''+'' then r else s1);
          ds = takeWhile is_digit s2
      in if ds = [] then None
         else Some (if negative then - digits_value ds else digits_value ds))"

text \<open>
  The field \<^verbatim>\<open>allowedUserId\<close>: \<open>None\<close> stands for \<^verbatim>\<open>null\<close> and for \<^verbatim>\<open>NaN\<close>, which the code
  only tests for truth, and both are false.
\<close>

record MessageHandler =
  allowedUserId :: "int option"

definition truthy :: "int option \<Rightarrow> bool" where
  "truthy v = (case v of None \<Rightarrow> False | Some n \<Rightarrow> n \<noteq> 0)"

text \<open>
  The constructor reads \<^verbatim>\<open>process.env.ALLOWED_USER_ID\<close>; an unset and an empty variable
  are both false in \<^verbatim>\<open>allowedUserIdStr ? parseInt(allowedUserIdStr, 10) : null\<close>.
\<close>

definition new_MessageHandler :: "string option \<Rightarrow> world \<Rightarrow> MessageHandler \<times> world" where
  "new_MessageHandler allowedUserIdStr w =
     (let a = (case allowedUserIdStr of
                 None \<Rightarrow> None
               | Some s \<Rightarrow> if s = [] then None else parseInt s)
      in (\<lparr>allowedUserId = a\<rparr>,
          if truthy a then logger INFO ''MessageHandler'' ''Only accepting messages from user ID: '' w
          else logger WARN ''MessageHandler''
                 ''ALLOWED_USER_ID not set - accepting messages from all users'' w))"

text \<open>The cross mark that starts the failure replies, in UTF-8.\<close>

definition cross_mark :: string where
  "cross_mark = [CHR 0xE2, CHR 0x9D, CHR 0x8C]"

text \<open>The callback of \<^verbatim>\<open>reduce\<close> in \<^verbatim>\<open>handlePhotoMessage\<close>.\<close>

definition larger :: "PhotoSize \<Rightarrow> PhotoSize \<Rightarrow> PhotoSize" where
  "larger largest current =
     (if truthy (PhotoSize_file_size current) \<and> truthy (PhotoSize_file_size largest) then
        (if the (PhotoSize_file_size current) > the (PhotoSize_file_size largest)
         then current else largest)
      else if PhotoSize_width current * PhotoSize_height current
              > PhotoSize_width largest * PhotoSize_height largest
      then current else largest)"

definition handlePhotoMessage :: "exchange \<Rightarrow> Message \<Rightarrow> world \<Rightarrow> unit async" where
  "handlePhotoMessage x m w =
     (case Message_photo m of
        None \<Rightarrow> (Inr (), w)
      | Some [] \<Rightarrow> (Inr (), w)
      | Some (p # ps) \<Rightarrow>
          (let largestPhoto = foldl larger p ps;
               w1 = logger INFO ''MessageHandler'' ''Downloading photo: '' w
           in case downloadFileById (PhotoSize_file_id largestPhoto) None x w1 of
                (Inr r, w2) \<Rightarrow> (Inr (), logger INFO ''MessageHandler'' ''Photo saved to: '' w2)
              | (Inl e, w2) \<Rightarrow>
                  sendMessage (Chat_id (Message_chat m))
                    (cross_mark @ '' Failed to download photo'' @ [CHR 0x0A])
                    (sendMessage_reply x)
                    (logger ERROR ''MessageHandler'' ''Failed to download photo: '' w2)))"

definition handleDocumentMessage :: "exchange \<Rightarrow> Message \<Rightarrow> world \<Rightarrow> unit async" where
  "handleDocumentMessage x m w =
     (case Message_document m of
        None \<Rightarrow> (Inr (), w)
      | Some doc \<Rightarrow>
          (let fileName = (if Document_file_name doc = [] then ''unknown''
                           else Document_file_name doc);
               w1 = logger INFO ''MessageHandler'' ''Downloading document: '' w
           in case downloadFileById (Document_file_id doc) None x w1 of
                (Inr r, w2) \<Rightarrow> (Inr (), logger INFO ''MessageHandler'' ''Document saved to: '' w2)
              | (Inl e, w2) \<Rightarrow>
                  sendMessage (Chat_id (Message_chat m))
                    (cross_mark @ '' Failed to download: '' @ fileName @ [CHR 0x0A])
                    (sendMessage_reply x)
                    (logger ERROR ''MessageHandler'' ''Failed to download document: '' w2)))"

definition handleTextMessage :: "exchange \<Rightarrow> Message \<Rightarrow> world \<Rightarrow> unit async" where
  "handleTextMessage x m w =
     (case Message_text m of
        None \<Rightarrow> (Inr (), w)
      | Some t \<Rightarrow>
          if t = [] then (Inr (), w)
          else sendMessage (Chat_id (Message_chat m)) (''You said: '' @ t) (sendMessage_reply x) w)"

definition startsWith_slash :: "string option \<Rightarrow> bool" where
  "startsWith_slash t = (case t of None \<Rightarrow> False | Some s \<Rightarrow> take 1 s = ''/'')"

text \<open>\<^verbatim>\<open>message.from?.id !== this.allowedUserId\<close> for a number \<open>k\<close> in the field.\<close>

definition sender_differs :: "Message \<Rightarrow> int \<Rightarrow> bool" where
  "sender_differs m k = (case Message_from m of None \<Rightarrow> True | Some u \<Rightarrow> User_id u \<noteq> k)"

text \<open>
  \<^verbatim>\<open>handle\<close>. The command handler is the caller's: \<^verbatim>\<open>CommandHandler.handle\<close> catches what
  its callbacks throw, so it is a function on the world that never rejects.
\<close>

definition handle :: "MessageHandler \<Rightarrow> (Message \<Rightarrow> world \<Rightarrow> world) \<Rightarrow> exchange \<Rightarrow> Message \<Rightarrow> world \<Rightarrow> unit async" where
  "handle this commandHandler x m w =
     (let w1 = logger INFO ''MessageHandler'' ''Message from '' w;
          w2 = w1\<lparr>logs := logs w1 @ [ConsoleDir]\<rparr>
      in if (case allowedUserId this of None \<Rightarrow> False | Some k \<Rightarrow> k \<noteq> 0 \<and> sender_differs m k) then
           (Inr (), logger WARN ''MessageHandler'' ''Ignoring message from unauthorized user: '' w2)
         else if Message_document m \<noteq> None then handleDocumentMessage x m w2
         else if Message_photo m \<noteq> None then handlePhotoMessage x m w2
         else if startsWith_slash (Message_text m) then (Inr (), commandHandler m w2)
         else handleTextMessage x m w2)"

section \<open>Inputs of the examples\<close>

text \<open>
  The world the constructors leave on a given disk and fault plan: \<^verbatim>\<open>StateManager\<close> sets
  the state to \<^verbatim>\<open>{ offset: 0 }\<close>, \<^verbatim>\<open>PollingService\<close> sets \<^verbatim>\<open>isRunning\<close> to false, and
  nothing has happened yet.
\<close>

definition constructed :: "disk \<Rightarrow> (nat \<Rightarrow> bool) \<Rightarrow> world" where
  "constructed d f =
     \<lparr>state = initial_state, isRunning = False, disk = d, faults = f, io_log = [], logs = [],
      calls = [], requests = [], sleeps = [], saved = []\<rparr>"

definition no_faults :: "nat \<Rightarrow> bool" where
  "no_faults k = False"

definition all_faults :: "nat \<Rightarrow> bool" where
  "all_faults k = True"

text \<open>An update with nothing but its id, and a file holding a cursor.\<close>

definition bare :: "int \<Rightarrow> Update" where
  "bare n =
     \<lparr>update_id = n, message = None, edited_message = None, channel_post = None,
      edited_channel_post = None\<rparr>"

definition cursor_file :: "int \<Rightarrow> disk" where
  "cursor_file n = StateFile (Json (JObj [(''offset'', JNum n)]))"

text \<open>A processor that always resolves, and one that rejects the update with a given id.\<close>

definition succeeds :: processor where
  "succeeds h u = \<lparr>resolves = True, stop_meanwhile = False\<rparr>"

definition fails_on :: "int \<Rightarrow> processor" where
  "fails_on n h u = \<lparr>resolves = (update_id u \<noteq> n), stop_meanwhile = False\<rparr>"

text \<open>The events of the environment: a batch delivered, a failure, with or without a stop.\<close>

definition delivers :: "Update list \<Rightarrow> event" where
  "delivers us =
     \<lparr>reply = Body \<lparr>ok = True, result = us, description = None\<rparr>,
      stop_in_flight = False, stop_in_backoff = False\<rparr>"

definition delivers_and_stop :: "Update list \<Rightarrow> event" where
  "delivers_and_stop us =
     \<lparr>reply = Body \<lparr>ok = True, result = us, description = None\<rparr>,
      stop_in_flight = True, stop_in_backoff = False\<rparr>"

definition unreachable :: event where
  "unreachable = \<lparr>reply = FetchRejects, stop_in_flight = False, stop_in_backoff = False\<rparr>"

definition rejected :: "string \<Rightarrow> event" where
  "rejected d =
     \<lparr>reply = Body \<lparr>ok = False, result = [], description = Some d\<rparr>,
      stop_in_flight = False, stop_in_backoff = False\<rparr>"

text \<open>
  The exchange in which \<^verbatim>\<open>getFile\<close> answers with a given file and everything else works:
  the download delivers 10 bytes and \<^verbatim>\<open>sendMessage\<close> is accepted.
\<close>

definition serves :: "File \<Rightarrow> exchange" where
  "serves f =
     \<lparr>getFile_reply = Body \<lparr>ok = True, result = f, description = None\<rparr>,
      download_reply = Bytes 10,
      generated_path = ''/tmp/telegram_f1_0_a.pdf'',
      sendMessage_reply = Body \<lparr>ok = True, result = (), description = None\<rparr>\<rparr>"

definition file_on_server :: "int option \<Rightarrow> string option \<Rightarrow> File" where
  "file_on_server sz path =
     \<lparr>File_file_id = ''f1'', File_file_size = sz, File_file_path = path\<rparr>"

text \<open>A message with a document from a given sender, and a handler without commands.\<close>

definition sender :: "int \<Rightarrow> User option" where
  "sender n = Some \<lparr>User_id = n, User_username = None\<rparr>"

definition document_message :: "User option \<Rightarrow> Message" where
  "document_message u =
     \<lparr>Message_from = u, Message_chat = \<lparr>Chat_id = 7\<rparr>, Message_text = None,
      Message_photo = None,
      Message_document = Some \<lparr>Document_file_name = ''a.pdf'', Document_file_id = ''f1'',
                                Document_file_size = 10\<rparr>\<rparr>"

definition no_commands :: "Message \<Rightarrow> world \<Rightarrow> world" where
  "no_commands m w = w"

section \<open>Lemmas\<close>

subsection \<open>StateManager\<close>

lemma save_resolves: "fst (save w) = Inr ()"
  by (simp add: save_def split: prod.splits sum.splits)

lemma save_frame:
  "state (snd (save w)) = state w" "isRunning (snd (save w)) = isRunning w"
  "calls (snd (save w)) = calls w" "requests (snd (save w)) = requests w"
  "sleeps (snd (save w)) = sleeps w" "saved (snd (save w)) = saved w"
  "faults (snd (save w)) = faults w"
  by (auto simp add: save_def ensureDirectoryExists_def mkdir_def writeFile_def logger_def Let_def
      split: prod.splits sum.splits if_splits)

lemma save_writes:
  assumes "\<forall>k. \<not> faults w k"
  shows "disk (snd (save w)) = StateFile (JSON_stringify (state w))"
  using assms
  by (auto simp add: save_def ensureDirectoryExists_def existsSync_dir_def mkdir_def writeFile_def
      io_fault_def logger_def Let_def split: prod.splits sum.splits if_splits disk.splits)

lemma save_first_fault:
  assumes "io_fault w"
  shows "disk (snd (save w)) = disk w"
    and "logs (snd (save w)) = logs w @ [Log ERROR ''StateManager'' ''Failed to save state'']"
  using assms
  by (auto simp add: save_def ensureDirectoryExists_def existsSync_dir_def mkdir_def writeFile_def
      io_fault_def logger_def Let_def split: prod.splits sum.splits if_splits disk.splits)

lemma read_offset_write_offset:
  "write_offset s (JNum n) = Inr s' \<Longrightarrow> read_offset s' = Inr (Some (JNum n))"
  by (cases s) (auto simp add: update_conv')

lemma write_offset_object:
  "is_object s \<Longrightarrow> \<exists>kv. write_offset s x = Inr (JObj kv) \<and> map_of kv ''offset'' = Some x"
  by (cases s) (auto simp add: update_conv')

lemma map_of_roundtrip:
  "map_of (map (map_prod id JSON_roundtrip) kv) k = map_option JSON_roundtrip (map_of kv k)"
  by (induction kv) auto

lemma persisted_stringify:
  "map_of kv ''offset'' = Some (JNum n) \<Longrightarrow>
   disk w = StateFile (JSON_stringify (JObj kv)) \<Longrightarrow> persisted w = Some n"
  by (simp add: persisted_def JSON_stringify_def map_of_roundtrip)

lemma persisted_disk: "disk w' = disk w \<Longrightarrow> persisted w' = persisted w"
  by (simp add: persisted_def)

lemma setOffset_object:
  assumes "is_object (state w)"
  shows "fst (setOffset n w) = Inr ()"
    and "getOffset (snd (setOffset n w)) = Inr (Some (JNum n))"
    and "is_object (state (snd (setOffset n w)))"
proof -
  from assms obtain kv where kv: "write_offset (state w) (JNum n) = Inr (JObj kv)"
    "map_of kv ''offset'' = Some (JNum n)"
    using write_offset_object by blast
  show "fst (setOffset n w) = Inr ()"
    by (simp add: setOffset_def kv save_resolves)
  show "getOffset (snd (setOffset n w)) = Inr (Some (JNum n))"
    by (simp add: setOffset_def kv getOffset_def save_frame)
  show "is_object (state (snd (setOffset n w)))"
    by (simp add: setOffset_def kv save_frame)
qed

lemma setOffset_frame:
  "isRunning (snd (setOffset n w)) = isRunning w"
  "calls (snd (setOffset n w)) = calls w" "requests (snd (setOffset n w)) = requests w"
  "sleeps (snd (setOffset n w)) = sleeps w" "saved (snd (setOffset n w)) = saved w"
  "faults (snd (setOffset n w)) = faults w"
  by (simp_all add: setOffset_def save_frame split: sum.splits)

lemma setOffset_persists:
  assumes "is_object (state w)" "\<forall>k. \<not> faults w k"
  shows "persisted (snd (setOffset n w)) = Some n"
proof -
  from assms obtain kv where kv: "write_offset (state w) (JNum n) = Inr (JObj kv)"
    "map_of kv ''offset'' = Some (JNum n)"
    using write_offset_object by blast
  have "disk (snd (setOffset n w)) = StateFile (JSON_stringify (JObj kv))"
    using assms(2) by (simp add: setOffset_def kv save_writes)
  with kv(2) show ?thesis by (rule persisted_stringify)
qed

lemma getOffset_object: "is_object (state w) \<Longrightarrow> \<exists>off. getOffset w = Inr off"
  by (cases "state w") (simp_all add: getOffset_def)

lemma load_resolves: "fst (load w) = Inr ()"
  by (simp add: load_def load_failed_def Let_def split_beta split: sum.splits)

lemma load_failed_result:
  "state (snd (load_failed w)) = initial_state"
  "getOffset (snd (load_failed w)) = Inr (Some (JNum 0))"
  "last (logs (snd (load_failed w))) = Log ERROR ''StateManager'' ''Failed to load state''"
  by (simp_all add: load_failed_def getOffset_def initial_state_def logger_def)

lemma offset_in_template_null: "offset_in_template JNull = Inl TypeError"
  by (simp add: offset_in_template_def)

lemma load_unusable:
  assumes "disk w = StateFile c"
    and "io_fault w \<or> c = Garbled \<or> (\<exists>v e. c = Json v \<and> offset_in_template v = Inl e)"
  shows "\<exists>w'. load w = load_failed w'"
  using assms
  by (auto simp add: load_def existsSync_statePath_def readFile_def JSON_parse_def Let_def
      split: sum.splits)

lemma load_adopts:
  assumes "disk w = StateFile (Json v)" "\<not> io_fault w" "offset_in_template v = Inr ()"
  shows "state (snd (load w)) = v"
    and "last (logs (snd (load w))) = Log INFO ''StateManager'' ''Loaded state with offset: ''"
  using assms
  by (simp_all add: load_def existsSync_statePath_def readFile_def JSON_parse_def Let_def
      logger_def)

lemma load_missing_logs:
  assumes "\<not> existsSync_statePath w"
  shows "last (logs (snd (load w))) =
           (if disk w = NoDir \<and> io_fault w
            then Log ERROR ''StateManager'' ''Failed to load state''
            else Log INFO ''StateManager'' ''Created new state file'')"
  using assms
  by (auto simp add: load_def load_failed_def save_def ensureDirectoryExists_def
      existsSync_statePath_def existsSync_dir_def mkdir_def writeFile_def io_fault_def
      logger_def Let_def split: disk.splits)

lemma load_creates:
  assumes "\<not> existsSync_statePath w" "\<forall>k. \<not> faults w k"
  shows "state (snd (load w)) = state w"
    and "disk (snd (load w)) = StateFile (JSON_stringify (state w))"
    and "io_log (snd (load w)) =
           io_log w @ (if disk w = NoDir then [Mkdir] else []) @ [WriteFile (JSON_stringify (state w))]"
    and "logs (snd (load w)) = logs w @ [Log INFO ''StateManager'' ''Created new state file'']"
  using assms
  by (auto simp add: load_def save_def ensureDirectoryExists_def existsSync_statePath_def
      existsSync_dir_def mkdir_def writeFile_def io_fault_def logger_def Let_def
      split: disk.splits)

lemma load_missing_keeps_or_resets:
  assumes "\<not> existsSync_statePath w"
  shows "state (snd (load w)) = state w \<or> state (snd (load w)) = initial_state"
  using assms
  by (auto simp add: load_def load_failed_def save_def ensureDirectoryExists_def
      existsSync_statePath_def existsSync_dir_def mkdir_def writeFile_def io_fault_def
      logger_def Let_def split: disk.splits)

subsection \<open>The for loop of poll\<close>

lemma while_awaiting_frame:
  "state (while_awaiting b w) = state w" "disk (while_awaiting b w) = disk w"
  "calls (while_awaiting b w) = calls w" "requests (while_awaiting b w) = requests w"
  "sleeps (while_awaiting b w) = sleeps w" "faults (while_awaiting b w) = faults w"
  "io_log (while_awaiting b w) = io_log w"
  "isRunning (while_awaiting b w) = (isRunning w \<and> \<not> b)"
  by (simp_all add: while_awaiting_def stop_def logger_def)

lemma logger_frame:
  "state (logger l c m w) = state w" "disk (logger l c m w) = disk w"
  "calls (logger l c m w) = calls w" "requests (logger l c m w) = requests w"
  "sleeps (logger l c m w) = sleeps w" "faults (logger l c m w) = faults w"
  "io_log (logger l c m w) = io_log w" "isRunning (logger l c m w) = isRunning w"
  "logs (logger l c m w) = logs w @ [Log l c m]"
  by (simp_all add: logger_def)

lemma for_body_calls: "calls (for_body p u w) = calls w @ [u]"
  by (simp add: for_body_def Let_def split_beta while_awaiting_frame logger_frame setOffset_frame
      split: sum.splits)

lemma for_body_frame:
  "requests (for_body p u w) = requests w" "sleeps (for_body p u w) = sleeps w"
  "faults (for_body p u w) = faults w"
  "isRunning (for_body p u w) = (isRunning w \<and> \<not> stop_meanwhile (p (calls w) u))"
  by (simp_all add: for_body_def Let_def split_beta while_awaiting_frame logger_frame
      setOffset_frame split: sum.splits)

lemma for_body_rejected:
  assumes "\<not> resolves (p (calls w) u)"
  shows "state (for_body p u w) = state w" "disk (for_body p u w) = disk w"
    "io_log (for_body p u w) = io_log w"
    "last (logs (for_body p u w)) = Log ERROR ''PollingService'' ''Failed to process update ''"
  using assms
  by (simp_all add: for_body_def Let_def while_awaiting_frame logger_frame)

lemma for_body_resolved:
  assumes "resolves (p (calls w) u)" "is_object (state w)"
  shows "getOffset (for_body p u w) = Inr (Some (JNum (update_id u + 1)))"
    and "is_object (state (for_body p u w))"
    and "(\<forall>k. \<not> faults w k) \<Longrightarrow> persisted (for_body p u w) = Some (update_id u + 1)"
proof -
  let ?w1 = "while_awaiting (stop_meanwhile (p (calls w) u)) (w\<lparr>calls := calls w @ [u]\<rparr>)"
  have obj: "is_object (state ?w1)"
    using assms(2) by (simp add: while_awaiting_frame)
  have eq: "for_body p u w = snd (setOffset (update_id u + 1) ?w1)"
    using assms(1) setOffset_object(1)[OF obj, of "update_id u + 1"]
    by (simp add: for_body_def Let_def split_beta)
  show "getOffset (for_body p u w) = Inr (Some (JNum (update_id u + 1)))"
    unfolding eq by (rule setOffset_object(2)[OF obj])
  show "is_object (state (for_body p u w))"
    unfolding eq by (rule setOffset_object(3)[OF obj])
  show "persisted (for_body p u w) = Some (update_id u + 1)" if "\<forall>k. \<not> faults w k"
  proof -
    have "\<forall>k. \<not> faults ?w1 k" using that by (simp add: while_awaiting_frame)
    then show ?thesis unfolding eq by (rule setOffset_persists[OF obj])
  qed
qed

lemma for_body_object: "is_object (state w) \<Longrightarrow> is_object (state (for_body p u w))"
  by (cases "resolves (p (calls w) u)") (simp_all add: for_body_resolved(2) for_body_rejected(1))

lemma for_updates_append:
  "for_updates p (xs @ ys) w = for_updates p ys (for_updates p xs w)"
  by (induction xs arbitrary: w) simp_all

lemma for_updates_calls: "calls (for_updates p us w) = calls w @ us"
  by (induction us arbitrary: w) (simp_all add: for_body_calls)

lemma for_updates_frame:
  "requests (for_updates p us w) = requests w" "sleeps (for_updates p us w) = sleeps w"
  "faults (for_updates p us w) = faults w"
  by (induction us arbitrary: w) (simp_all add: for_body_frame)

lemma for_updates_object: "is_object (state w) \<Longrightarrow> is_object (state (for_updates p us w))"
  by (induction us arbitrary: w) (simp_all add: for_body_object)

lemma for_updates_stopped: "\<not> isRunning w \<Longrightarrow> \<not> isRunning (for_updates p us w)"
  by (induction us arbitrary: w) (simp_all add: for_body_frame)

lemma for_updates_all_resolved:
  assumes "\<forall>h u. resolves (p h u)" "is_object (state w)" "us \<noteq> []"
  shows "getOffset (for_updates p us w) = Inr (Some (JNum (update_id (last us) + 1)))"
    and "(\<forall>k. \<not> faults w k) \<Longrightarrow> persisted (for_updates p us w) = Some (update_id (last us) + 1)"
proof -
  obtain pre u where us: "us = pre @ [u]"
    using assms(3) by (metis rev_exhaust)
  let ?b = "for_updates p pre w"
  have obj: "is_object (state ?b)" using assms(2) by (rule for_updates_object)
  have res: "resolves (p (calls ?b) u)" using assms(1) by simp
  have eq: "for_updates p (pre @ [u]) w = for_body p u ?b"
    by (simp add: for_updates_append)
  show "getOffset (for_updates p us w) = Inr (Some (JNum (update_id (last us) + 1)))"
    using for_body_resolved(1)[of p ?b u, OF res obj] by (simp add: us eq)
  show "persisted (for_updates p us w) = Some (update_id (last us) + 1)" if "\<forall>k. \<not> faults w k"
  proof -
    have "\<forall>k. \<not> faults ?b k" using that by (simp add: for_updates_frame)
    then show ?thesis using for_body_resolved(3)[of p ?b u, OF res obj] by (simp add: us eq)
  qed
qed

subsection \<open>Requests and poll\<close>

lemma makeRequest_frame:
  "state (snd (makeRequest c r w)) = state w" "disk (snd (makeRequest c r w)) = disk w"
  "calls (snd (makeRequest c r w)) = calls w" "sleeps (snd (makeRequest c r w)) = sleeps w"
  "faults (snd (makeRequest c r w)) = faults w" "isRunning (snd (makeRequest c r w)) = isRunning w"
  "saved (snd (makeRequest c r w)) = saved w"
  "requests (snd (makeRequest c r w)) = requests w @ [c]"
  by (simp_all add: makeRequest_def Let_def logger_def split: http.splits)

lemma makeRequest_failure:
  assumes "r = FetchRejects \<or> r = JsonRejects \<or> (\<exists>d. r = Body d \<and> \<not> ok d)"
  shows "\<exists>e. fst (makeRequest c r w) = Inl e"
    and "last (logs (snd (makeRequest c r w)))
           = Log ERROR ''TelegramClient'' (''Failed to call '' @ method_of c)"
  using assms by (auto simp add: makeRequest_def Let_def logger_def)

lemma poll_delivered:
  assumes "getOffset w = Inr off" "reply ev = Body r" "ok r"
  shows "poll p ev w =
     (Inr (), for_updates p (result r)
        (if result r = [] then
           (while_awaiting (stop_in_flight ev) w)
             \<lparr>requests := requests w @ [GetUpdatesCall \<lparr>offset = off, timeout = pollTimeout, limit = pollLimit\<rparr>]\<rparr>
         else logger INFO ''PollingService'' ''Received update(s)''
           ((while_awaiting (stop_in_flight ev) w)
             \<lparr>requests := requests w @ [GetUpdatesCall \<lparr>offset = off, timeout = pollTimeout, limit = pollLimit\<rparr>]\<rparr>)))"
  using assms
  by (simp add: poll_def getUpdates_def makeRequest_def Let_def while_awaiting_frame)

lemma poll_source_failure:
  assumes "getOffset w = Inr off"
    and "reply ev = FetchRejects \<or> reply ev = JsonRejects \<or> (\<exists>r. reply ev = Body r \<and> \<not> ok r)"
  shows "\<exists>e. poll p ev w =
           (Inl e, snd (makeRequest
                          (GetUpdatesCall \<lparr>offset = off, timeout = pollTimeout, limit = pollLimit\<rparr>)
                          (reply ev) (while_awaiting (stop_in_flight ev) w)))"
proof -
  obtain e where "fst (makeRequest
                          (GetUpdatesCall \<lparr>offset = off, timeout = pollTimeout, limit = pollLimit\<rparr>)
                          (reply ev) (while_awaiting (stop_in_flight ev) w)) = Inl e"
    using makeRequest_failure(1)[OF assms(2)] by blast
  then show ?thesis
    by (simp add: poll_def assms(1) getUpdates_def split_beta)
qed

lemma poll_requests:
  assumes "getOffset w = Inr off"
  shows "requests (snd (poll p ev w)) =
           requests w @ [GetUpdatesCall \<lparr>offset = off, timeout = pollTimeout, limit = pollLimit\<rparr>]"
    and "sleeps (snd (poll p ev w)) = sleeps w"
    and "isRunning (snd (poll p ev w)) \<Longrightarrow> isRunning w \<and> \<not> stop_in_flight ev"
proof -
  let ?m = "makeRequest (GetUpdatesCall \<lparr>offset = off, timeout = pollTimeout, limit = pollLimit\<rparr>)
              (reply ev) (while_awaiting (stop_in_flight ev) w)"
  have run: "\<not> (isRunning w \<and> \<not> stop_in_flight ev) \<Longrightarrow> \<not> isRunning (snd ?m)"
    by (simp add: makeRequest_frame while_awaiting_frame)
  show "requests (snd (poll p ev w)) =
           requests w @ [GetUpdatesCall \<lparr>offset = off, timeout = pollTimeout, limit = pollLimit\<rparr>]"
    by (simp add: poll_def assms getUpdates_def split_beta for_updates_frame logger_frame
        makeRequest_frame while_awaiting_frame split: sum.splits)
  show "sleeps (snd (poll p ev w)) = sleeps w"
    by (simp add: poll_def assms getUpdates_def split_beta for_updates_frame logger_frame
        makeRequest_frame while_awaiting_frame split: sum.splits)
  show "isRunning w \<and> \<not> stop_in_flight ev" if "isRunning (snd (poll p ev w))"
  proof (rule ccontr)
    assume "\<not> (isRunning w \<and> \<not> stop_in_flight ev)"
    then have "\<not> isRunning (snd ?m)" by (rule run)
    then have "\<not> isRunning (snd (poll p ev w))"
      by (simp add: poll_def assms getUpdates_def split_beta for_updates_stopped logger_frame
          split: sum.splits)
    with that show False by simp
  qed
qed

lemma poll_calls:
  assumes "getOffset w = Inr off"
  shows "calls (snd (poll p ev w)) = calls w @ delivered ev"
proof (cases "\<exists>r. reply ev = Body r \<and> ok r")
  case True
  then obtain r where r: "reply ev = Body r" "ok r" by blast
  show ?thesis
    using poll_delivered[OF assms r, of p]
    by (simp add: delivered_def r for_updates_calls logger_frame while_awaiting_frame)
next
  case False
  then have "reply ev = FetchRejects \<or> reply ev = JsonRejects \<or> (\<exists>r. reply ev = Body r \<and> \<not> ok r)"
    by (cases "reply ev") auto
  from poll_source_failure[OF assms this, of p] False show ?thesis
    by (auto simp add: delivered_def makeRequest_frame while_awaiting_frame split: http.splits)
qed

subsection \<open>The loop\<close>

lemma iteration_delivered:
  assumes "is_object (state w)" "reply ev = Body r" "ok r"
  shows "iteration p ev w = snd (poll p ev w)"
proof -
  obtain off where off: "getOffset w = Inr off"
    using assms(1) getOffset_object by blast
  show ?thesis
    using poll_delivered[OF off assms(2,3), of p] by (simp add: iteration_def)
qed

lemma iteration_successful:
  assumes "is_object (state w)" "\<forall>k. \<not> faults w k" "\<forall>h u. resolves (p h u)"
    "reply ev = Body r" "ok r"
  shows "is_object (state (iteration p ev w))"
    and "faults (iteration p ev w) = faults w"
    and "persisted (iteration p ev w) =
           (if delivered ev = [] then persisted w
            else Some (update_id (last (delivered ev)) + 1))"
proof -
  obtain off where off: "getOffset w = Inr off"
    using assms(1) getOffset_object by blast
  let ?w0 = "(while_awaiting (stop_in_flight ev) w)
             \<lparr>requests := requests w @ [GetUpdatesCall \<lparr>offset = off, timeout = pollTimeout, limit = pollLimit\<rparr>]\<rparr>"
  let ?w1 = "logger INFO ''PollingService'' ''Received update(s)'' ?w0"
  have d: "delivered ev = result r"
    by (simp add: delivered_def assms(4,5))
  have eq: "iteration p ev w = for_updates p (result r) (if result r = [] then ?w0 else ?w1)"
    using iteration_delivered[OF assms(1,4,5), of p] poll_delivered[OF off assms(4,5), of p]
    by simp
  have obj: "is_object (state ?w1)" "is_object (state ?w0)"
    using assms(1) by (simp_all add: logger_frame while_awaiting_frame)
  have nf: "\<forall>k. \<not> faults ?w1 k"
    using assms(2) by (simp add: logger_frame while_awaiting_frame)
  show "is_object (state (iteration p ev w))"
    using obj by (simp add: eq for_updates_object)
  show "faults (iteration p ev w) = faults w"
    by (simp add: eq for_updates_frame logger_frame while_awaiting_frame)
  show "persisted (iteration p ev w) =
           (if delivered ev = [] then persisted w
            else Some (update_id (last (delivered ev)) + 1))"
  proof (cases "result r = []")
    case True
    have "disk ?w0 = disk w" by (simp add: while_awaiting_frame)
    then have "persisted ?w0 = persisted w" by (rule persisted_disk)
    then show ?thesis
      using True by (simp add: eq d)
  next
    case False
    then show ?thesis
      using for_updates_all_resolved(2)[OF assms(3) obj(1) False] nf
      by (simp add: eq d)
  qed
qed

lemma iteration_frame:
  assumes "getOffset w = Inr off"
  shows "requests (iteration p ev w) =
           requests w @ [GetUpdatesCall \<lparr>offset = off, timeout = pollTimeout, limit = pollLimit\<rparr>]"
    and "calls (iteration p ev w) = calls w @ delivered ev"
    and "isRunning (iteration p ev w) \<Longrightarrow> isRunning w \<and> \<not> stop_in_flight ev"
proof -
  show "requests (iteration p ev w) =
           requests w @ [GetUpdatesCall \<lparr>offset = off, timeout = pollTimeout, limit = pollLimit\<rparr>]"
    using poll_requests(1)[OF assms, of p ev]
    by (simp add: iteration_def split_beta while_awaiting_frame logger_frame split: sum.splits)
  show "calls (iteration p ev w) = calls w @ delivered ev"
    using poll_calls[OF assms, of p ev]
    by (simp add: iteration_def split_beta while_awaiting_frame logger_frame split: sum.splits)
  show "isRunning w \<and> \<not> stop_in_flight ev" if "isRunning (iteration p ev w)"
  proof -
    have "isRunning (snd (poll p ev w))"
      using that
      by (simp add: iteration_def split_beta while_awaiting_frame logger_frame split: sum.splits)
    then show ?thesis by (rule poll_requests(3)[OF assms])
  qed
qed

lemma while_isRunning_stopped: "\<not> isRunning w \<Longrightarrow> while_isRunning p evs w = Stopped w evs"
  by (cases evs) simp_all

lemma cycles_successful:
  assumes "is_object (state w)" "\<forall>k. \<not> faults w k" "\<forall>h u. resolves (p h u)"
    "\<forall>ev \<in> set evs. \<exists>r. reply ev = Body r \<and> ok r"
  shows "persisted (cycles p evs w) =
           (if concat (map delivered evs) = [] then persisted w
            else Some (update_id (last (concat (map delivered evs))) + 1))"
  using assms
proof (induction evs arbitrary: w)
  case Nil
  then show ?case by simp
next
  case (Cons ev evs)
  from Cons.prems(4) obtain r where r: "reply ev = Body r" "ok r" by auto
  note it = iteration_successful[OF Cons.prems(1,2,3) r]
  have nf: "\<forall>k. \<not> faults (iteration p ev w) k"
    using Cons.prems(2) by (simp add: it(2))
  have rest: "\<forall>ev \<in> set evs. \<exists>r. reply ev = Body r \<and> ok r"
    using Cons.prems(4) by simp
  show ?case
    using Cons.IH[OF it(1) nf Cons.prems(3) rest]
    by (simp add: it(3))
qed

lemma sorted_le_last:
  fixes xs :: "int list"
  shows "sorted xs \<Longrightarrow> x \<in> set xs \<Longrightarrow> x \<le> last xs"
  by (induction xs) auto

lemma Max_sorted_last:
  fixes xs :: "int list"
  assumes "sorted_wrt (<) xs" "xs \<noteq> []"
  shows "Max (set xs) = last xs"
proof (rule Max_eqI)
  show "finite (set xs)" by simp
  show "last xs \<in> set xs" using assms(2) by simp
  have "sorted xs" using assms(1) by (simp add: strict_sorted_iff)
  then show "y \<le> last xs" if "y \<in> set xs" for y
    using that by (rule sorted_le_last)
qed

lemma cursor_step:
  fixes I J :: "int list"
  assumes "sorted_wrt (<) (I @ J)" and "\<forall>x \<in> set (I @ J). c \<le> x"
  shows "(if I = [] then c else last I + 1) \<le> (if I @ J = [] then c else last (I @ J) + 1)"
proof (cases "J = []")
  case True
  then show ?thesis by simp
next
  case False
  then have lJ: "last J \<in> set J" by simp
  show ?thesis
  proof (cases "I = []")
    case True
    have "c \<le> last J" using assms(2) lJ by simp
    then show ?thesis using True False by simp
  next
    case I: False
    then have "last I \<in> set I" by simp
    then have "last I < last J"
      using assms(1) lJ by (auto simp add: sorted_wrt_append)
    then show ?thesis using False I by simp
  qed
qed

subsection \<open>The handlers\<close>

lemma parseInt_nonempty: "parseInt s = Some k \<Longrightarrow> s \<noteq> []"
  by (auto simp add: parseInt_def Let_def)

lemma downloadFile_requests:
  "requests (snd (downloadFile path sp d w)) = requests w @ [FileGet path]"
  by (simp add: downloadFile_def Let_def logger_def split: download.splits)

section \<open>The claims\<close>

text \<open>
  C1, as the code has it. When the fetch delivers a batch, \<^verbatim>\<open>poll\<close> resolves and every
  update of the batch is handed to the processor, in order, whether or not the processor
  rejected earlier ones. For each update \<open>u\<close> of the batch, with \<open>before\<close> the world when
  its turn comes: if the processor resolves, the cursor in memory becomes
  \<open>update_id u + 1\<close> and, when the file system works, so does the cursor in the backing
  file; if the processor rejects, the state and the backing file stay as they were and
  the failure is logged. The store's state is an object, as its type \<^verbatim>\<open>BotState\<close> says.
  For the batch 1, 2 where update 1 fails, update 2 is still invoked and the final
  persisted offset is 3.
\<close>

theorem cursor_advances_when_processor_resolves:
  assumes "is_object (state w)" and "reply ev = Body r" and "ok r"
    and "result r = pre @ u # post"
  shows "fst (poll p ev w) = Inr ()
       \<and> calls (snd (poll p ev w)) = calls w @ result r
       \<and> (\<exists>before.
             snd (poll p ev w) = for_updates p post (for_body p u before)
           \<and> calls before = calls w @ pre
           \<and> (if resolves (p (calls before) u) then
                  getOffset (for_body p u before) = Inr (Some (JNum (update_id u + 1)))
                \<and> ((\<forall>k. \<not> faults w k) \<longrightarrow>
                      persisted (for_body p u before) = Some (update_id u + 1))
              else
                  state (for_body p u before) = state before
                \<and> disk (for_body p u before) = disk before
                \<and> last (logs (for_body p u before))
                    = Log ERROR ''PollingService'' ''Failed to process update ''))"
proof -
  obtain off where off: "getOffset w = Inr off"
    using assms(1) getOffset_object by blast
  let ?w0 = "logger INFO ''PollingService'' ''Received update(s)''
           ((while_awaiting (stop_in_flight ev) w)
             \<lparr>requests := requests w @ [GetUpdatesCall \<lparr>offset = off, timeout = pollTimeout, limit = pollLimit\<rparr>]\<rparr>)"
  let ?b = "for_updates p pre ?w0"
  have eq: "poll p ev w = (Inr (), for_updates p (result r) ?w0)"
    using poll_delivered[OF off assms(2,3)] assms(4) by simp
  have c0: "calls ?w0 = calls w"
    by (simp add: logger_frame while_awaiting_frame)
  have obj: "is_object (state ?b)"
    using assms(1) by (simp add: for_updates_object logger_frame while_awaiting_frame)
  have f: "faults ?b = faults w"
    by (simp add: for_updates_frame logger_frame while_awaiting_frame)
  have 1: "snd (poll p ev w) = for_updates p post (for_body p u ?b)"
    by (simp add: eq assms(4) for_updates_append)
  have 2: "calls ?b = calls w @ pre"
    by (simp add: for_updates_calls c0)
  have 3: "getOffset (for_body p u ?b) = Inr (Some (JNum (update_id u + 1)))
         \<and> ((\<forall>k. \<not> faults w k) \<longrightarrow> persisted (for_body p u ?b) = Some (update_id u + 1))"
    if "resolves (p (calls ?b) u)"
    using for_body_resolved(1,3)[of p ?b u, OF that obj] by (simp add: f)
  have 4: "state (for_body p u ?b) = state ?b \<and> disk (for_body p u ?b) = disk ?b
         \<and> last (logs (for_body p u ?b)) = Log ERROR ''PollingService'' ''Failed to process update ''"
    if "\<not> resolves (p (calls ?b) u)"
    using for_body_rejected(1,2,4)[of p ?b u, OF that] by simp
  have "fst (poll p ev w) = Inr ()" "calls (snd (poll p ev w)) = calls w @ result r"
    by (simp_all add: eq for_updates_calls c0)
  moreover have "\<exists>before.
             snd (poll p ev w) = for_updates p post (for_body p u before)
           \<and> calls before = calls w @ pre
           \<and> (if resolves (p (calls before) u) then
                  getOffset (for_body p u before) = Inr (Some (JNum (update_id u + 1)))
                \<and> ((\<forall>k. \<not> faults w k) \<longrightarrow>
                      persisted (for_body p u before) = Some (update_id u + 1))
              else
                  state (for_body p u before) = state before
                \<and> disk (for_body p u before) = disk before
                \<and> last (logs (for_body p u before))
                    = Log ERROR ''PollingService'' ''Failed to process update '')"
    apply (rule exI[of _ ?b])
    using 1 2 3 4 by presburger
  ultimately show ?thesis by blast
qed

theorem cursor_advances_when_processor_resolves_witness:
  "fst (poll (fails_on 1) (delivers [bare 1, bare 2]) (constructed NoFile no_faults)) = Inr ()
   \<and> calls (snd (poll (fails_on 1) (delivers [bare 1, bare 2]) (constructed NoFile no_faults)))
       = [bare 1, bare 2]
   \<and> getOffset (snd (poll (fails_on 1) (delivers [bare 1, bare 2]) (constructed NoFile no_faults)))
       = Inr (Some (JNum 3))
   \<and> persisted (snd (poll (fails_on 1) (delivers [bare 1, bare 2]) (constructed NoFile no_faults)))
       = Some 3"
proof -
  let ?w = "constructed NoFile no_faults"
  let ?r = "\<lparr>ok = True, result = [bare 1, bare 2], description = None\<rparr>"
  have obj: "is_object (state ?w)"
    by (simp add: constructed_def initial_state_def)
  have rep: "reply (delivers [bare 1, bare 2]) = Body ?r"
    by (simp add: delivers_def)
  have isok: "ok ?r"
    by simp
  have batch: "result ?r = [bare 1] @ bare 2 # []"
    by simp
  have nf: "\<forall>k. \<not> faults ?w k"
    by (simp add: constructed_def no_faults_def)
  have res: "resolves (fails_on 1 h (bare 2))" for h
    by (simp add: fails_on_def bare_def)
  from cursor_advances_when_processor_resolves[OF obj rep isok batch, of "fails_on 1"]
  show ?thesis
    using nf res by (auto simp add: constructed_def bare_def)
qed

text \<open>
  C1 as stated, with the cursor advanced whether the processor resolves or rejects, does
  not hold: for the batch 1, 2 and a processor that rejects update 2, both updates are
  handed to the processor, and the cursor stays at 2 in memory and in the backing file.
\<close>

theorem cursor_stays_when_processor_rejects_counterexample:
  "calls (snd (poll (fails_on 2) (delivers [bare 1, bare 2]) (constructed NoFile no_faults)))
       = [bare 1, bare 2]
   \<and> getOffset (snd (poll (fails_on 2) (delivers [bare 1, bare 2]) (constructed NoFile no_faults)))
       = Inr (Some (JNum 2))
   \<and> persisted (snd (poll (fails_on 2) (delivers [bare 1, bare 2]) (constructed NoFile no_faults)))
       = Some 2
   \<and> persisted (snd (poll (fails_on 2) (delivers [bare 1, bare 2]) (constructed NoFile no_faults)))
       \<noteq> Some (update_id (bare 2) + 1)"
  by (simp add: constructed_def initial_state_def no_faults_def delivers_def fails_on_def bare_def
      poll_def getOffset_def getUpdates_def makeRequest_def while_awaiting_def logger_def
      for_body_def setOffset_def save_def ensureDirectoryExists_def existsSync_dir_def
      writeFile_def io_fault_def JSON_stringify_def persisted_def Let_def)

text \<open>
  C2. The persisted cursor never decreases. Take a sequence of successful
  fetch-and-process cycles: every fetch delivers a batch, the processor resolves on every
  update and the file system works, on a store whose state is an object and whose
  backing file holds the cursor \<open>c\<close>. The update ids arrive in ascending order, from the
  cursor on: the remote side numbers the updates upwards and serves them from the offset
  requested, so none is below \<open>c\<close>. Then the persisted cursor after cycle \<open>n + 1\<close> is at
  least the one after cycle \<open>n\<close>, and once an update has been delivered it is the largest
  id delivered so far plus 1.
\<close>

theorem persisted_cursor_monotone:
  assumes "is_object (state w)" and "persisted w = Some c" and "\<forall>k. \<not> faults w k"
    and "\<forall>h u. resolves (p h u)"
    and "\<forall>ev \<in> set evs. \<exists>r. reply ev = Body r \<and> ok r"
    and "sorted_wrt (<) (map update_id (concat (map delivered evs)))"
    and "\<forall>u \<in> set (concat (map delivered evs)). c \<le> update_id u"
    and "n < length evs"
  shows "\<exists>a b. persisted (cycles p (take n evs) w) = Some a
             \<and> persisted (cycles p (take (Suc n) evs) w) = Some b
             \<and> a \<le> b
             \<and> (concat (map delivered (take (Suc n) evs)) \<noteq> [] \<longrightarrow>
                  b = Max (update_id ` set (concat (map delivered (take (Suc n) evs)))) + 1)"
proof -
  let ?D = "\<lambda>k. concat (map delivered (take k evs))"
  let ?I = "map update_id (?D n)"
  let ?J = "map update_id (delivered (evs ! n))"
  let ?cur = "\<lambda>xs::int list. if xs = [] then c else last xs + 1"
  have pers: "persisted (cycles p (take k evs) w) = Some (?cur (map update_id (?D k)))" for k
  proof -
    have "\<forall>ev \<in> set (take k evs). \<exists>r. reply ev = Body r \<and> ok r"
      using assms(5) by (meson in_set_takeD)
    from cycles_successful[OF assms(1,3,4) this] show ?thesis
      by (simp add: assms(2) last_map)
  qed
  have split: "?D (Suc n) = ?D n @ delivered (evs ! n)"
    using assms(8) by (simp add: take_Suc_conv_app_nth)
  have whole: "concat (map delivered evs) = ?D (Suc n) @ concat (map delivered (drop (Suc n) evs))"
    by (metis append_take_drop_id concat_append map_append)
  have sorted: "sorted_wrt (<) (?I @ ?J)"
    using assms(6) unfolding whole split by (simp add: sorted_wrt_append)
  have lower: "\<forall>x \<in> set (?I @ ?J). c \<le> x"
    using assms(7) unfolding whole split by auto
  have IJ: "map update_id (?D (Suc n)) = ?I @ ?J"
    by (simp add: split)
  have mono: "?cur ?I \<le> ?cur (?I @ ?J)"
    using cursor_step[OF sorted lower] .
  have mx: "?cur (?I @ ?J) = Max (update_id ` set (?D (Suc n))) + 1" if "?D (Suc n) \<noteq> []"
  proof -
    have ne: "?I @ ?J \<noteq> []" using that unfolding split by simp
    have "Max (set (?I @ ?J)) = last (?I @ ?J)"
      using sorted ne by (rule Max_sorted_last)
    moreover have "set (?I @ ?J) = update_id ` set (?D (Suc n))"
      unfolding split by auto
    ultimately have "last (?I @ ?J) = Max (update_id ` set (?D (Suc n)))" by simp
    then show ?thesis unfolding if_not_P[OF ne] by simp
  qed
  show ?thesis
    apply (rule exI[of _ "?cur ?I"])
    apply (rule exI[of _ "?cur (?I @ ?J)"])
    using pers[of n] pers[of "Suc n"] mono mx unfolding IJ by blast
qed

theorem persisted_cursor_monotone_witness:
  "persisted (cycles succeeds (take 0 [delivers [bare 1, bare 2], delivers [], delivers [bare 3]])
        (constructed (cursor_file 0) no_faults)) = Some 0
   \<and> persisted (cycles succeeds (take 1 [delivers [bare 1, bare 2], delivers [], delivers [bare 3]])
        (constructed (cursor_file 0) no_faults)) = Some 3
   \<and> persisted (cycles succeeds (take 3 [delivers [bare 1, bare 2], delivers [], delivers [bare 3]])
        (constructed (cursor_file 0) no_faults)) = Some 4"
proof -
  let ?w = "constructed (cursor_file 0) no_faults"
  let ?evs = "[delivers [bare 1, bare 2], delivers [], delivers [bare 3]]"
  have obj: "is_object (state ?w)"
    by (simp add: constructed_def initial_state_def)
  have per: "persisted ?w = Some 0"
    by (simp add: constructed_def cursor_file_def persisted_def)
  have nf: "\<forall>k. \<not> faults ?w k"
    by (simp add: constructed_def no_faults_def)
  have res: "\<forall>h u. resolves (succeeds h u)"
    by (simp add: succeeds_def)
  have del: "\<forall>ev \<in> set ?evs. \<exists>r. reply ev = Body r \<and> ok r"
    by (simp add: delivers_def)
  have ids: "map update_id (concat (map delivered ?evs)) = [1, 2, 3]"
    by (simp add: delivered_def delivers_def bare_def)
  have asc: "sorted_wrt (<) (map update_id (concat (map delivered ?evs)))"
    unfolding ids by simp
  have low: "\<forall>u \<in> set (concat (map delivered ?evs)). 0 \<le> update_id u"
    by (simp add: delivered_def delivers_def bare_def)
  have m1: "Max (update_id ` set (concat (map delivered (take (Suc 0) ?evs)))) = 2"
    by (simp add: delivered_def delivers_def bare_def)
  have m3: "Max (update_id ` set (concat (map delivered (take (Suc 2) ?evs)))) = 3"
    by (simp add: delivered_def delivers_def bare_def numeral_2_eq_2)
  have ne1: "concat (map delivered (take (Suc 0) ?evs)) \<noteq> []"
    by (simp add: delivered_def delivers_def)
  have ne3: "concat (map delivered (take (Suc 2) ?evs)) \<noteq> []"
    by (simp add: delivered_def delivers_def)
  from persisted_cursor_monotone[OF obj per nf res del asc low, of 0]
    persisted_cursor_monotone[OF obj per nf res del asc low, of 2]
  show ?thesis
    using per ne1 ne3 unfolding m1 m3
    by (auto simp add: numeral_3_eq_3)
qed

text \<open>
  C3, as the code has it. \<^verbatim>\<open>load\<close> never rejects. On a newly constructed store without a
  backing file the offset afterwards is 0, and the creation of the file, or the failure
  to create its directory, is logged. On a backing file that cannot be read, whose text
  is not JSON, whose text is \<^verbatim>\<open>null\<close>, or whose offset cannot be converted to a string
  for the log line, the offset afterwards is 0 and the failure is logged. Every other
  JSON value in the file becomes the state as it is, with the ordinary log line.
\<close>

theorem load_never_raises:
  "fst (load w) = Inr ()
   \<and> (\<not> existsSync_statePath w \<and> state w = initial_state \<longrightarrow>
        getOffset (snd (load w)) = Inr (Some (JNum 0)))
   \<and> (\<not> existsSync_statePath w \<longrightarrow>
        last (logs (snd (load w))) =
          (if disk w = NoDir \<and> io_fault w
           then Log ERROR ''StateManager'' ''Failed to load state''
           else Log INFO ''StateManager'' ''Created new state file''))
   \<and> (disk w = StateFile c
        \<and> (io_fault w \<or> c = Garbled \<or> c = Json JNull
             \<or> (\<exists>u e. c = Json u \<and> offset_in_template u = Inl e)) \<longrightarrow>
        getOffset (snd (load w)) = Inr (Some (JNum 0))
      \<and> last (logs (snd (load w))) = Log ERROR ''StateManager'' ''Failed to load state'')
   \<and> (disk w = StateFile (Json v) \<and> \<not> io_fault w \<and> offset_in_template v = Inr () \<longrightarrow>
        state (snd (load w)) = v
      \<and> last (logs (snd (load w))) = Log INFO ''StateManager'' ''Loaded state with offset: '')"
proof -
  have "getOffset (snd (load w)) = Inr (Some (JNum 0))"
    if "\<not> existsSync_statePath w" "state w = initial_state"
    using load_missing_keeps_or_resets[OF that(1)] that(2)
    by (auto simp add: getOffset_def initial_state_def)
  moreover have "getOffset (snd (load w)) = Inr (Some (JNum 0))
      \<and> last (logs (snd (load w))) = Log ERROR ''StateManager'' ''Failed to load state''"
    if "disk w = StateFile c"
      "io_fault w \<or> c = Garbled \<or> c = Json JNull
         \<or> (\<exists>u e. c = Json u \<and> offset_in_template u = Inl e)"
  proof -
    have "io_fault w \<or> c = Garbled \<or> (\<exists>u e. c = Json u \<and> offset_in_template u = Inl e)"
      using that(2) offset_in_template_null by blast
    from load_unusable[OF that(1) this] show ?thesis
      using load_failed_result(2,3) by auto
  qed
  ultimately show ?thesis
    using load_resolves[of w] load_adopts[of w v] load_missing_logs[of w] by blast
qed

theorem load_never_raises_witness:
  "fst (load (constructed (StateFile Garbled) no_faults)) = Inr ()
   \<and> getOffset (snd (load (constructed (StateFile Garbled) no_faults))) = Inr (Some (JNum 0))
   \<and> getOffset (snd (load (constructed (StateFile (Json JNull)) no_faults))) = Inr (Some (JNum 0))
   \<and> getOffset (snd (load (constructed (cursor_file 42) all_faults))) = Inr (Some (JNum 0))
   \<and> getOffset (snd (load (constructed NoFile all_faults))) = Inr (Some (JNum 0))
   \<and> last (logs (snd (load (constructed NoFile all_faults))))
       = Log INFO ''StateManager'' ''Created new state file''
   \<and> last (logs (snd (load (constructed NoDir all_faults))))
       = Log ERROR ''StateManager'' ''Failed to load state''
   \<and> getOffset (snd (load (constructed
        (StateFile (Json (JObj [(''offset'', JObj [(''toString'', JNum 1)])]))) no_faults)))
       = Inr (Some (JNum 0))
   \<and> last (logs (snd (load (constructed
        (StateFile (Json (JObj [(''offset'', JObj [(''toString'', JNum 1)])]))) no_faults))))
       = Log ERROR ''StateManager'' ''Failed to load state''
   \<and> state (snd (load (constructed (StateFile (Json (JStr ''x''))) no_faults))) = JStr ''x''
   \<and> getOffset (snd (load (constructed (cursor_file 42) no_faults))) = Inr (Some (JNum 42))"
  using load_never_raises[of "constructed (StateFile Garbled) no_faults" Garbled JNull]
    load_never_raises[of "constructed (StateFile (Json JNull)) no_faults" "Json JNull" JNull]
    load_never_raises[of "constructed (cursor_file 42) all_faults" "Json (JObj [(''offset'', JNum 42)])" JNull]
    load_never_raises[of "constructed NoFile all_faults" Garbled JNull]
    load_never_raises[of "constructed NoDir all_faults" Garbled JNull]
    load_never_raises[of "constructed
        (StateFile (Json (JObj [(''offset'', JObj [(''toString'', JNum 1)])]))) no_faults"
        "Json (JObj [(''offset'', JObj [(''toString'', JNum 1)])])" JNull]
    load_never_raises[of "constructed (StateFile (Json (JStr ''x''))) no_faults" Garbled "JStr ''x''"]
    load_never_raises[of "constructed (cursor_file 42) no_faults" Garbled "JObj [(''offset'', JNum 42)]"]
  by (simp add: constructed_def no_faults_def all_faults_def io_fault_def cursor_file_def
      existsSync_statePath_def getOffset_def offset_in_template_def)

text \<open>
  C3 as stated, with the offset 0 after any content that is not an object with a
  non-negative integer offset, does not hold: a file holding the offset -5 is loaded with
  the ordinary log line, and the offset afterwards is -5.
\<close>

theorem load_adopts_negative_offset_counterexample:
  "fst (load (constructed (cursor_file (- 5)) no_faults)) = Inr ()
   \<and> getOffset (snd (load (constructed (cursor_file (- 5)) no_faults))) = Inr (Some (JNum (- 5)))
   \<and> getOffset (snd (load (constructed (cursor_file (- 5)) no_faults))) \<noteq> Inr (Some (JNum 0))
   \<and> logs (snd (load (constructed (cursor_file (- 5)) no_faults)))
       = [Log INFO ''StateManager'' ''Loaded state with offset: '']"
  by (simp add: load_def constructed_def no_faults_def cursor_file_def existsSync_statePath_def
      readFile_def io_fault_def JSON_parse_def getOffset_def logger_def Let_def
      offset_in_template_def)

text \<open>
  C4. Updates are processed in the order delivered: when the fetch delivers a non-empty
  batch, the processor always resolves and the file system works, \<^verbatim>\<open>poll\<close> resolves, the
  updates handed to the processor are exactly those of the batch, once each and in its
  order, and the cursor in memory and in the backing file is one past the last update's
  id. For the batch 5, 6, 7 the persisted offset is 8.
\<close>

theorem poll_in_delivered_order:
  assumes "is_object (state w)" and "reply ev = Body r" and "ok r" and "result r \<noteq> []"
    and "\<forall>h u. resolves (p h u)" and "\<forall>k. \<not> faults w k"
  shows "fst (poll p ev w) = Inr ()
       \<and> calls (snd (poll p ev w)) = calls w @ result r
       \<and> getOffset (snd (poll p ev w)) = Inr (Some (JNum (update_id (last (result r)) + 1)))
       \<and> persisted (snd (poll p ev w)) = Some (update_id (last (result r)) + 1)"
proof -
  obtain off where off: "getOffset w = Inr off"
    using assms(1) getOffset_object by blast
  let ?w0 = "logger INFO ''PollingService'' ''Received update(s)''
           ((while_awaiting (stop_in_flight ev) w)
             \<lparr>requests := requests w @ [GetUpdatesCall \<lparr>offset = off, timeout = pollTimeout, limit = pollLimit\<rparr>]\<rparr>)"
  have eq: "poll p ev w = (Inr (), for_updates p (result r) ?w0)"
    using poll_delivered[OF off assms(2,3)] assms(4) by simp
  have obj: "is_object (state ?w0)"
    using assms(1) by (simp add: logger_frame while_awaiting_frame)
  have nf: "\<forall>k. \<not> faults ?w0 k"
    using assms(6) by (simp add: logger_frame while_awaiting_frame)
  have "calls ?w0 = calls w"
    by (simp add: logger_frame while_awaiting_frame)
  then show ?thesis
    using for_updates_all_resolved[OF assms(5) obj assms(4)] nf
    by (simp add: eq for_updates_calls)
qed

theorem poll_in_delivered_order_witness:
  "fst (poll succeeds (delivers [bare 5, bare 6, bare 7]) (constructed NoFile no_faults)) = Inr ()
   \<and> calls (snd (poll succeeds (delivers [bare 5, bare 6, bare 7]) (constructed NoFile no_faults)))
       = [bare 5, bare 6, bare 7]
   \<and> persisted (snd (poll succeeds (delivers [bare 5, bare 6, bare 7]) (constructed NoFile no_faults)))
       = Some 8"
proof -
  let ?w = "constructed NoFile no_faults"
  let ?r = "\<lparr>ok = True, result = [bare 5, bare 6, bare 7], description = None\<rparr>"
  have obj: "is_object (state ?w)"
    by (simp add: constructed_def initial_state_def)
  have rep: "reply (delivers [bare 5, bare 6, bare 7]) = Body ?r"
    by (simp add: delivers_def)
  have isok: "ok ?r"
    by simp
  have ne: "result ?r \<noteq> []"
    by simp
  have res: "\<forall>h u. resolves (succeeds h u)"
    by (simp add: succeeds_def)
  have nf: "\<forall>k. \<not> faults ?w k"
    by (simp add: constructed_def no_faults_def)
  from poll_in_delivered_order[OF obj rep isok ne res nf]
  show ?thesis
    by (simp add: constructed_def bare_def)
qed

text \<open>
  C5. A fetch that fails, by a transport error, a body that is not JSON or an envelope
  with \<^verbatim>\<open>ok: false\<close>, makes \<^verbatim>\<open>poll\<close> reject. The loop then logs the error, sleeps 5000
  milliseconds and goes on: the cursor, the backing file and the updates handed to the
  processor are as before, the one request sent carried the current offset. The failure
  does not end the loop: unless \<^verbatim>\<open>stop()\<close> was called meanwhile, the loop run on this one
  event is still running afterwards, in the world that iteration left, and run on two
  events it sends the request with the same offset again and stands where the second
  iteration leaves it. It returns after the failed iteration only when \<^verbatim>\<open>stop()\<close> was called
  during it.
\<close>

theorem source_failure_backs_off:
  assumes "isRunning w" and "getOffset w = Inr off"
    and "reply ev = FetchRejects \<or> reply ev = JsonRejects \<or> (\<exists>r. reply ev = Body r \<and> \<not> ok r)"
  shows "while_isRunning p (ev # evs) w = while_isRunning p evs (iteration p ev w)
       \<and> (\<exists>e. fst (poll p ev w) = Inl e)
       \<and> getOffset (iteration p ev w) = Inr off
       \<and> disk (iteration p ev w) = disk w
       \<and> calls (iteration p ev w) = calls w
       \<and> requests (iteration p ev w) =
           requests w @ [GetUpdatesCall \<lparr>offset = off, timeout = 30, limit = 100\<rparr>]
       \<and> sleeps (iteration p ev w) = sleeps w @ [5000]
       \<and> Log ERROR ''PollingService'' ''Error during polling'' \<in> set (logs (iteration p ev w))
       \<and> isRunning (iteration p ev w) = (\<not> stop_in_flight ev \<and> \<not> stop_in_backoff ev)
       \<and> (\<not> stop_in_flight ev \<and> \<not> stop_in_backoff ev \<longrightarrow>
            while_isRunning p (ev # ev' # evs) w
              = while_isRunning p evs (iteration p ev' (iteration p ev w))
          \<and> requests (iteration p ev' (iteration p ev w)) =
              requests w @ [GetUpdatesCall \<lparr>offset = off, timeout = 30, limit = 100\<rparr>,
                            GetUpdatesCall \<lparr>offset = off, timeout = 30, limit = 100\<rparr>])
       \<and> (\<not> stop_in_flight ev \<and> \<not> stop_in_backoff ev \<longrightarrow>
            while_isRunning p [ev] w = Starved (iteration p ev w)
          \<and> while_isRunning p [ev, ev'] w =
              (if isRunning (iteration p ev' (iteration p ev w))
               then Starved (iteration p ev' (iteration p ev w))
               else Stopped (iteration p ev' (iteration p ev w)) []))
       \<and> (stop_in_flight ev \<or> stop_in_backoff ev \<longrightarrow>
            while_isRunning p (ev # evs) w = Stopped (iteration p ev w) evs)"
proof -
  let ?G = "GetUpdatesCall \<lparr>offset = off, timeout = pollTimeout, limit = pollLimit\<rparr>"
  let ?m = "snd (makeRequest ?G (reply ev) (while_awaiting (stop_in_flight ev) w))"
  let ?w' = "iteration p ev w"
  obtain e where e: "poll p ev w = (Inl e, ?m)"
    using poll_source_failure[OF assms(2,3)] by blast
  have it: "?w' = while_awaiting (stop_in_backoff ev)
            ((logger ERROR ''PollingService'' ''Error during polling'' ?m)\<lparr>sleeps := sleeps ?m @ [5000]\<rparr>)"
    by (simp add: iteration_def e)
  have st: "state ?w' = state w" "disk ?w' = disk w" "calls ?w' = calls w"
    "requests ?w' = requests w @ [?G]" "sleeps ?w' = sleeps w @ [5000]"
    "isRunning ?w' = (\<not> stop_in_flight ev \<and> \<not> stop_in_backoff ev)"
    using assms(1) by (simp_all add: it while_awaiting_frame logger_frame makeRequest_frame)
  have lg: "Log ERROR ''PollingService'' ''Error during polling'' \<in> set (logs ?w')"
    by (simp add: it while_awaiting_def stop_def logger_def)
  have off': "getOffset ?w' = Inr off"
    using assms(2) by (simp add: getOffset_def st(1))
  have two: "requests (iteration p ev' ?w') = requests w @ [?G, ?G]"
    using iteration_frame(1)[OF off', of p ev'] by (simp add: st(4))
  have loop1: "while_isRunning p (ev # evs) w = while_isRunning p evs ?w'" for evs
    using assms(1) by simp
  have loop2: "while_isRunning p (ev # ev' # evs) w = while_isRunning p evs (iteration p ev' ?w')"
    if "\<not> stop_in_flight ev \<and> \<not> stop_in_backoff ev" for evs
    using that st(6) assms(1) by simp
  have one: "while_isRunning p [ev] w = Starved ?w'"
    if "\<not> stop_in_flight ev \<and> \<not> stop_in_backoff ev"
    using that st(6) assms(1) by simp
  have pair: "while_isRunning p [ev, ev'] w =
              (if isRunning (iteration p ev' ?w') then Starved (iteration p ev' ?w')
               else Stopped (iteration p ev' ?w') [])"
    if "\<not> stop_in_flight ev \<and> \<not> stop_in_backoff ev"
    using loop2[OF that, of "[]"] by simp
  have halted: "while_isRunning p (ev # evs) w = Stopped ?w' evs"
    if "stop_in_flight ev \<or> stop_in_backoff ev"
  proof -
    have "\<not> isRunning ?w'" using that st(6) by simp
    then have "while_isRunning p evs ?w' = Stopped ?w' evs"
      by (rule while_isRunning_stopped)
    then show ?thesis by (simp only: loop1)
  qed
  have "\<exists>e. fst (poll p ev w) = Inl e" by (simp add: e)
  then show ?thesis
    using loop1[of evs] loop2[of evs] off' st lg two one pair halted
    by (simp add: pollTimeout_def pollLimit_def)
qed

theorem source_failure_backs_off_witness:
  "sleeps (iteration succeeds unreachable ((constructed (cursor_file 42) no_faults)\<lparr>isRunning := True\<rparr>))
       = [5000]
   \<and> getOffset (iteration succeeds (rejected ''Conflict'')
        ((constructed (cursor_file 42) no_faults)\<lparr>isRunning := True\<rparr>)) = Inr (Some (JNum 0))
   \<and> while_isRunning succeeds [rejected ''Conflict'']
        ((constructed (cursor_file 42) no_faults)\<lparr>isRunning := True\<rparr>)
       = Starved (iteration succeeds (rejected ''Conflict'')
                   ((constructed (cursor_file 42) no_faults)\<lparr>isRunning := True\<rparr>))
   \<and> requests (iteration succeeds unreachable
        (iteration succeeds (rejected ''Conflict'')
           ((constructed (cursor_file 42) no_faults)\<lparr>isRunning := True\<rparr>)))
       = [GetUpdatesCall \<lparr>offset = Some (JNum 0), timeout = 30, limit = 100\<rparr>,
          GetUpdatesCall \<lparr>offset = Some (JNum 0), timeout = 30, limit = 100\<rparr>]
   \<and> while_isRunning succeeds [rejected ''Conflict'', unreachable]
        ((constructed (cursor_file 42) no_faults)\<lparr>isRunning := True\<rparr>)
       = Starved (iteration succeeds unreachable
           (iteration succeeds (rejected ''Conflict'')
              ((constructed (cursor_file 42) no_faults)\<lparr>isRunning := True\<rparr>)))"
proof -
  let ?w = "(constructed (cursor_file 42) no_faults)\<lparr>isRunning := True\<rparr>"
  let ?w1 = "iteration succeeds (rejected ''Conflict'') ?w"
  have run: "isRunning ?w"
    by simp
  have off: "getOffset ?w = Inr (Some (JNum 0))"
    by (simp add: constructed_def initial_state_def getOffset_def)
  have f1: "reply unreachable = FetchRejects \<or> reply unreachable = JsonRejects
            \<or> (\<exists>r. reply unreachable = Body r \<and> \<not> ok r)"
    by (simp add: unreachable_def)
  have f2: "reply (rejected ''Conflict'') = FetchRejects \<or> reply (rejected ''Conflict'') = JsonRejects
            \<or> (\<exists>r. reply (rejected ''Conflict'') = Body r \<and> \<not> ok r)"
    by (simp add: rejected_def)
  have quiet: "\<not> stop_in_flight unreachable" "\<not> stop_in_backoff unreachable"
    "\<not> stop_in_flight (rejected ''Conflict'')" "\<not> stop_in_backoff (rejected ''Conflict'')"
    by (simp_all add: unreachable_def rejected_def)
  note first = source_failure_backs_off[OF run off f2, of succeeds "[unreachable]" unreachable]
  have run1: "isRunning ?w1"
    using first quiet by blast
  have off1: "getOffset ?w1 = Inr (Some (JNum 0))"
    using first by blast
  note second = source_failure_backs_off[OF run1 off1 f1, of succeeds "[]" unreachable]
  note third = source_failure_backs_off[OF run off f1, of succeeds "[]" unreachable]
  have "sleeps (iteration succeeds unreachable ?w) = sleeps ?w @ [5000]"
    using third by blast
  then have a: "sleeps (iteration succeeds unreachable ?w) = [5000]"
    by (simp add: constructed_def)
  have b: "while_isRunning succeeds [rejected ''Conflict''] ?w = Starved ?w1"
    using first quiet by blast
  have "requests (iteration succeeds unreachable ?w1)
             = requests ?w @ [GetUpdatesCall \<lparr>offset = Some (JNum 0), timeout = 30, limit = 100\<rparr>,
                GetUpdatesCall \<lparr>offset = Some (JNum 0), timeout = 30, limit = 100\<rparr>]"
    using first quiet by blast
  then have c: "requests (iteration succeeds unreachable ?w1)
             = [GetUpdatesCall \<lparr>offset = Some (JNum 0), timeout = 30, limit = 100\<rparr>,
                GetUpdatesCall \<lparr>offset = Some (JNum 0), timeout = 30, limit = 100\<rparr>]"
    by (simp add: constructed_def)
  have "while_isRunning succeeds [rejected ''Conflict'', unreachable] ?w
          = while_isRunning succeeds [unreachable] ?w1"
    using first by blast
  also have "\<dots> = Starved (iteration succeeds unreachable ?w1)"
    using second quiet by blast
  finally have d: "while_isRunning succeeds [rejected ''Conflict'', unreachable] ?w
          = Starved (iteration succeeds unreachable ?w1)" .
  show ?thesis
    using a b c d off1 by blast
qed

text \<open>
  C6. A failure to persist the cursor is swallowed: for every offset \<open>n\<close>, \<^verbatim>\<open>setOffset(n)\<close>
  on a store whose state is an object (its declared type \<^verbatim>\<open>BotState\<close>) resolves whatever
  the file system does, and afterwards \<^verbatim>\<open>getOffset\<close> returns \<open>n\<close>. When the first
  file-system call of the save fails, the disk is as before and the failure is logged.
\<close>

theorem setOffset_swallows_write_failure:
  assumes "is_object (state w)"
  shows "fst (setOffset n w) = Inr ()
       \<and> getOffset (snd (setOffset n w)) = Inr (Some (JNum n))
       \<and> (io_fault w \<longrightarrow>
            disk (snd (setOffset n w)) = disk w
          \<and> logs (snd (setOffset n w)) = logs w @ [Log ERROR ''StateManager'' ''Failed to save state''])"
proof -
  from assms obtain kv where kv: "write_offset (state w) (JNum n) = Inr (JObj kv)"
    using write_offset_object by blast
  have "io_fault (w\<lparr>state := JObj kv\<rparr>) = io_fault w"
    by (simp add: io_fault_def)
  then have "io_fault w \<longrightarrow>
            disk (snd (setOffset n w)) = disk w
          \<and> logs (snd (setOffset n w)) = logs w @ [Log ERROR ''StateManager'' ''Failed to save state'']"
    by (simp add: setOffset_def kv save_first_fault)
  then show ?thesis
    using setOffset_object(1,2)[OF assms] by simp
qed

theorem setOffset_swallows_write_failure_witness:
  "io_fault (constructed (cursor_file 3) all_faults)
   \<and> fst (setOffset 7 (constructed (cursor_file 3) all_faults)) = Inr ()
   \<and> getOffset (snd (setOffset 7 (constructed (cursor_file 3) all_faults))) = Inr (Some (JNum 7))
   \<and> disk (snd (setOffset 7 (constructed (cursor_file 3) all_faults))) = cursor_file 3"
proof -
  have obj: "is_object (state (constructed (cursor_file 3) all_faults))"
    by (simp add: constructed_def initial_state_def)
  have flt: "io_fault (constructed (cursor_file 3) all_faults)"
    by (simp add: constructed_def io_fault_def all_faults_def)
  from setOffset_swallows_write_failure[OF obj, of 7] flt
  show ?thesis
    by (simp add: constructed_def)
qed

text \<open>
  C7. Cold start: on a newly constructed store without a backing file, with a working
  file system, \<^verbatim>\<open>load\<close> resolves, the offset in memory is 0, the backing file afterwards
  holds the object with offset 0, and the file-system calls made are the \<^verbatim>\<open>mkdir\<close> of a
  missing directory first and then the write of the file.
\<close>

theorem load_cold_start:
  assumes "state w = initial_state" and "\<not> existsSync_statePath w" and "\<forall>k. \<not> faults w k"
  shows "fst (load w) = Inr ()
       \<and> getOffset (snd (load w)) = Inr (Some (JNum 0))
       \<and> disk (snd (load w)) = StateFile (Json (JObj [(''offset'', JNum 0)]))
       \<and> io_log (snd (load w)) =
           io_log w @ (if disk w = NoDir then [Mkdir] else [])
             @ [WriteFile (Json (JObj [(''offset'', JNum 0)]))]
       \<and> logs (snd (load w)) = logs w @ [Log INFO ''StateManager'' ''Created new state file'']"
proof -
  show ?thesis
    using load_creates[OF assms(2,3)] load_resolves[of w]
    by (simp add: getOffset_def assms(1) initial_state_def JSON_stringify_def)
qed

theorem load_cold_start_witness:
  "fst (load (constructed NoDir no_faults)) = Inr ()
   \<and> getOffset (snd (load (constructed NoDir no_faults))) = Inr (Some (JNum 0))
   \<and> disk (snd (load (constructed NoDir no_faults))) = cursor_file 0
   \<and> io_log (snd (load (constructed NoDir no_faults)))
       = [Mkdir, WriteFile (Json (JObj [(''offset'', JNum 0)]))]"
proof -
  have fresh: "state (constructed NoDir no_faults) = initial_state"
    by (simp add: constructed_def)
  have nofile: "\<not> existsSync_statePath (constructed NoDir no_faults)"
    by (simp add: constructed_def existsSync_statePath_def)
  have nf: "\<forall>k. \<not> faults (constructed NoDir no_faults) k"
    by (simp add: constructed_def no_faults_def)
  from load_cold_start[OF fresh nofile nf]
  show ?thesis
    by (simp add: constructed_def cursor_file_def)
qed

text \<open>
  C8. \<^verbatim>\<open>stop()\<close> is cooperative. A loop that finds the flag cleared returns at once: the
  world is as it was and no event is used, so no further fetch or processor call happens.
  When \<^verbatim>\<open>stop()\<close> is called while a fetch is in flight, that iteration still runs to its
  end: its one request was sent, every update of the delivered batch is handed to the
  processor, the cursor ends one past the last of them when the processor resolves, and
  then the loop returns without using another event.
\<close>

theorem stop_is_cooperative:
  "(\<not> isRunning w \<longrightarrow> while_isRunning p evs w = Stopped w evs)
   \<and> (isRunning w \<and> stop_in_flight ev \<and> getOffset w = Inr off \<longrightarrow>
        while_isRunning p (ev # evs) w = Stopped (iteration p ev w) evs
      \<and> requests (iteration p ev w) =
          requests w @ [GetUpdatesCall \<lparr>offset = off, timeout = 30, limit = 100\<rparr>]
      \<and> calls (iteration p ev w) = calls w @ delivered ev
      \<and> (is_object (state w) \<and> (\<forall>h u. resolves (p h u)) \<and> delivered ev \<noteq> [] \<longrightarrow>
           getOffset (iteration p ev w)
             = Inr (Some (JNum (update_id (last (delivered ev)) + 1)))))"
proof -
  have A: "while_isRunning p (ev # evs) w = Stopped (iteration p ev w) evs"
    if "isRunning w" "stop_in_flight ev" "getOffset w = Inr off"
  proof -
    have "\<not> isRunning (iteration p ev w)"
      using iteration_frame(3)[OF that(3), of p ev] that(2) by blast
    then show ?thesis
      using that(1) by (simp add: while_isRunning_stopped)
  qed
  have B: "getOffset (iteration p ev w) = Inr (Some (JNum (update_id (last (delivered ev)) + 1)))"
    if "getOffset w = Inr off" "is_object (state w)" "\<forall>h u. resolves (p h u)" "delivered ev \<noteq> []"
  proof -
    from that(4) obtain r where r: "reply ev = Body r" "ok r" "result r \<noteq> []" "delivered ev = result r"
      by (auto simp add: delivered_def split: http.splits if_splits)
    let ?w0 = "logger INFO ''PollingService'' ''Received update(s)''
           ((while_awaiting (stop_in_flight ev) w)
             \<lparr>requests := requests w @ [GetUpdatesCall \<lparr>offset = off, timeout = pollTimeout, limit = pollLimit\<rparr>]\<rparr>)"
    have eq: "iteration p ev w = for_updates p (result r) ?w0"
      using iteration_delivered[OF that(2) r(1,2), of p] poll_delivered[OF that(1) r(1,2), of p] r(3)
      by simp
    have obj: "is_object (state ?w0)"
      using that(2) by (simp add: logger_frame while_awaiting_frame)
    show ?thesis
      using for_updates_all_resolved(1)[OF that(3) obj r(3)] by (simp add: eq r(4))
  qed
  show ?thesis
    using A B iteration_frame(1,2)[of w off p ev] while_isRunning_stopped[of w p evs]
    by (simp add: pollTimeout_def pollLimit_def)
qed

theorem stop_is_cooperative_witness:
  "start succeeds [delivers_and_stop [bare 5, bare 6], delivers [bare 7]] (constructed NoFile no_faults)
     = Stopped (iteration succeeds (delivers_and_stop [bare 5, bare 6])
                 (logger INFO ''PollingService'' ''Polling started''
                    ((constructed NoFile no_faults)\<lparr>isRunning := True\<rparr>)))
               [delivers [bare 7]]
   \<and> calls (world_of (start succeeds [delivers_and_stop [bare 5, bare 6], delivers [bare 7]]
        (constructed NoFile no_faults))) = [bare 5, bare 6]
   \<and> requests (world_of (start succeeds [delivers_and_stop [bare 5, bare 6], delivers [bare 7]]
        (constructed NoFile no_faults)))
       = [GetUpdatesCall \<lparr>offset = Some (JNum 0), timeout = 30, limit = 100\<rparr>]
   \<and> getOffset (world_of (start succeeds [delivers_and_stop [bare 5, bare 6], delivers [bare 7]]
        (constructed NoFile no_faults))) = Inr (Some (JNum 7))"
  using stop_is_cooperative[of "logger INFO ''PollingService'' ''Polling started''
                    ((constructed NoFile no_faults)\<lparr>isRunning := True\<rparr>)"
      succeeds "[delivers [bare 7]]" "delivers_and_stop [bare 5, bare 6]" "Some (JNum 0)"]
  by (simp add: start_def constructed_def initial_state_def getOffset_def logger_def
      delivers_and_stop_def delivered_def succeeds_def bare_def)

text \<open>
  C9. The authorization gate: when \<^verbatim>\<open>ALLOWED_USER_ID\<close> parses to a non-zero integer
  \<open>k\<close>, the handler stores \<open>k\<close>, and \<^verbatim>\<open>handle\<close> on a message whose sender is absent or has
  another id resolves and changes nothing but the log, to which it adds the line for the
  message, the \<^verbatim>\<open>console.dir\<close> and the warning: no request is sent, nothing is
  downloaded and the command handler is not called.
\<close>

theorem unauthorized_message_is_dropped:
  assumes "parseInt s = Some k" and "k \<noteq> 0" and "sender_differs m k"
  shows "allowedUserId (fst (new_MessageHandler (Some s) w0)) = Some k
       \<and> handle (fst (new_MessageHandler (Some s) w0)) commandHandler x m w
           = (Inr (), w\<lparr>logs := logs w @
                [Log INFO ''MessageHandler'' ''Message from '',
                 ConsoleDir,
                 Log WARN ''MessageHandler'' ''Ignoring message from unauthorized user: '']\<rparr>)"
proof -
  have a: "allowedUserId (fst (new_MessageHandler (Some s) w0)) = Some k"
    using assms(1) parseInt_nonempty[OF assms(1)]
    by (simp add: new_MessageHandler_def Let_def)
  show ?thesis
    using assms(2,3) by (simp add: a handle_def Let_def logger_def)
qed

theorem unauthorized_message_is_dropped_witness:
  "allowedUserId (fst (new_MessageHandler (Some ''12345'') (constructed NoFile no_faults))) = Some 12345
   \<and> requests (snd (handle (fst (new_MessageHandler (Some ''12345'') (constructed NoFile no_faults)))
        no_commands (serves (file_on_server (Some 10) (Some ''documents/a.pdf'')))
        (document_message (sender 999)) (constructed NoFile no_faults))) = []
   \<and> saved (snd (handle (fst (new_MessageHandler (Some ''12345'') (constructed NoFile no_faults)))
        no_commands (serves (file_on_server (Some 10) (Some ''documents/a.pdf'')))
        (document_message None) (constructed NoFile no_faults))) = []
   \<and> requests (snd (handle (fst (new_MessageHandler (Some ''12345'') (constructed NoFile no_faults)))
        no_commands (serves (file_on_server (Some 10) (Some ''documents/a.pdf'')))
        (document_message (sender 12345)) (constructed NoFile no_faults)))
       = [GetFileCall ''f1'', FileGet ''documents/a.pdf'']"
proof -
  have env: "parseInt ''12345'' = Some 12345"
    by (simp add: parseInt_def is_space_def is_digit_def digits_value_def)
  have nz: "(12345::int) \<noteq> 0"
    by simp
  have other: "sender_differs (document_message (sender 999)) 12345"
    by (simp add: sender_differs_def document_message_def sender_def)
  have absent: "sender_differs (document_message None) 12345"
    by (simp add: sender_differs_def document_message_def)
  have mh: "fst (new_MessageHandler (Some ''12345'') w0) = \<lparr>allowedUserId = Some 12345\<rparr>" for w0
    by (simp add: new_MessageHandler_def env Let_def)
  have allowed: "requests (snd (handle \<lparr>allowedUserId = Some 12345\<rparr>
        no_commands (serves (file_on_server (Some 10) (Some ''documents/a.pdf'')))
        (document_message (sender 12345)) (constructed NoFile no_faults)))
       = [GetFileCall ''f1'', FileGet ''documents/a.pdf'']"
    by (simp add: sender_differs_def sender_def document_message_def serves_def file_on_server_def
        constructed_def handle_def handleDocumentMessage_def downloadFileById_def
        downloadFile_def getFile_def MAX_FILE_SIZE_def makeRequest_def logger_def Let_def)
  from unauthorized_message_is_dropped[OF env nz other, of "constructed NoFile no_faults" no_commands
        "serves (file_on_server (Some 10) (Some ''documents/a.pdf''))" "constructed NoFile no_faults"]
    unauthorized_message_is_dropped[OF env nz absent, of "constructed NoFile no_faults" no_commands
        "serves (file_on_server (Some 10) (Some ''documents/a.pdf''))" "constructed NoFile no_faults"]
  show ?thesis
    using allowed mh by (simp add: constructed_def)
qed

text \<open>
  C10. Validation before the download: when \<^verbatim>\<open>getFile\<close> delivers a file,
  \<^verbatim>\<open>downloadFileById\<close> rejects with no download attempted (the \<^verbatim>\<open>getFile\<close> request is the
  only one sent) if and only if the result lacks a \<^verbatim>\<open>file_path\<close>, which by the code's test
  \<^verbatim>\<open>!file.file_path\<close> is a path that is absent or the empty string, or its \<^verbatim>\<open>file_size\<close> is
  present and strictly greater than 20 * 1024 * 1024. A file with a path whose size is
  exactly 20 * 1024 * 1024, or absent, is requested for download.
\<close>

theorem downloadFileById_validates:
  assumes "getFile_reply x = Body r" and "ok r"
  shows "(((\<exists>e. fst (downloadFileById fileId savePath x w) = Inl e)
           \<and> requests (snd (downloadFileById fileId savePath x w)) = requests w @ [GetFileCall fileId])
          \<longleftrightarrow> (File_file_path (result r) = None \<or> File_file_path (result r) = Some []
               \<or> (\<exists>n. File_file_size (result r) = Some n \<and> n > 20 * 1024 * 1024)))
       \<and> (\<forall>path. File_file_path (result r) = Some path \<and> path \<noteq> []
             \<and> (File_file_size (result r) = None
                  \<or> File_file_size (result r) = Some (20 * 1024 * 1024)) \<longrightarrow>
             requests (snd (downloadFileById fileId savePath x w))
               = requests w @ [GetFileCall fileId, FileGet path])"
proof -
  have g: "getFile fileId (getFile_reply x) w
             = (Inr (result r), w\<lparr>requests := requests w @ [GetFileCall fileId]\<rparr>)"
    using assms by (simp add: getFile_def makeRequest_def Let_def)
  show ?thesis
    by (auto simp add: downloadFileById_def g MAX_FILE_SIZE_def downloadFile_requests Let_def
        split: option.splits)
qed

theorem downloadFileById_validates_witness:
  "(\<exists>e. fst (downloadFileById ''f1'' None
            (serves (file_on_server (Some (20 * 1024 * 1024 + 1)) (Some ''documents/a.pdf'')))
            (constructed NoFile no_faults)) = Inl e)
   \<and> requests (snd (downloadFileById ''f1'' None
          (serves (file_on_server (Some (20 * 1024 * 1024 + 1)) (Some ''documents/a.pdf'')))
          (constructed NoFile no_faults))) = [GetFileCall ''f1'']
   \<and> requests (snd (downloadFileById ''f1'' None
          (serves (file_on_server (Some (20 * 1024 * 1024)) (Some ''documents/a.pdf'')))
          (constructed NoFile no_faults))) = [GetFileCall ''f1'', FileGet ''documents/a.pdf'']
   \<and> requests (snd (downloadFileById ''f1'' None
          (serves (file_on_server None (Some ''documents/a.pdf'')))
          (constructed NoFile no_faults))) = [GetFileCall ''f1'', FileGet ''documents/a.pdf'']
   \<and> requests (snd (downloadFileById ''f1'' None
          (serves (file_on_server (Some 10) None))
          (constructed NoFile no_faults))) = [GetFileCall ''f1'']
   \<and> requests (snd (downloadFileById ''f1'' None
          (serves (file_on_server (Some 10) (Some [])))
          (constructed NoFile no_faults))) = [GetFileCall ''f1'']"
proof -
  have rep: "getFile_reply (serves f) = Body \<lparr>ok = True, result = f, description = None\<rparr>" for f
    by (simp add: serves_def)
  have isok: "ok \<lparr>ok = True, result = f, description = None\<rparr>" for f :: File
    by simp
  from downloadFileById_validates[OF rep isok, of "''f1''" None
      "file_on_server (Some (20 * 1024 * 1024 + 1)) (Some ''documents/a.pdf'')"
      "constructed NoFile no_faults"]
    downloadFileById_validates[OF rep isok, of "''f1''" None
      "file_on_server (Some (20 * 1024 * 1024)) (Some ''documents/a.pdf'')"
      "constructed NoFile no_faults"]
    downloadFileById_validates[OF rep isok, of "''f1''" None
      "file_on_server None (Some ''documents/a.pdf'')"
      "constructed NoFile no_faults"]
    downloadFileById_validates[OF rep isok, of "''f1''" None
      "file_on_server (Some 10) None"
      "constructed NoFile no_faults"]
    downloadFileById_validates[OF rep isok, of "''f1''" None
      "file_on_server (Some 10) (Some [])"
      "constructed NoFile no_faults"]
  show ?thesis
    by (simp add: file_on_server_def constructed_def)
qed

end
